theory Spec2Isabelle
  imports Complex_Main
begin

section \<open>The glif\_psc neuron model of NEST: parameters, calibration and update\<close>

text \<open>
  The development embeds \<^verbatim>\<open>glif_psc.cpp\<close> (the file \<^verbatim>\<open>src/unnamed/part_000\<close>) and
  the \<^verbatim>\<open>set_status\<close> of \<^verbatim>\<open>src/models/iaf_psc_alpha_multisynapse.h\<close>.

  A C++ \<^verbatim>\<open>double\<close> is modelled as a real number, without infinities or NaN. The
  arithmetic is the exact one, but for the count-down of the refractory time, whose
  subtraction is rounded as that of doubles is (\<open>round_double\<close>). A member \<^verbatim>\<open>x_\<close> of
  the struct \<^verbatim>\<open>P_\<close>, \<^verbatim>\<open>S_\<close>, \<^verbatim>\<open>V_\<close> or \<^verbatim>\<open>B_\<close> is the record field \<open>P_x\<close>, \<open>S_x\<close>,
  \<open>V_x\<close> or \<open>B_x\<close>. An exception or a failed assertion is a value of the type \<open>error\<close>;
  a member function that mutates its object returns the object as it is after the call,
  also when it throws.
\<close>

subsection \<open>Dictionaries\<close>

text \<open>The names of \<^verbatim>\<open>names::\<close> that the model reads or writes.\<close>

datatype Name =
  names_V_th | names_g | names_E_L | names_C_m | names_t_ref | names_V_reset
  | names_a_spike | names_b_spike | names_a_reset | names_b_reset
  | names_a_voltage | names_b_voltage
  | names_asc_init | names_k | names_asc_amps | names_r | names_tau_syn
  | names_has_connections | names_glif_model
  | names_V_m | names_ASCurrents

text \<open>
  A dictionary entry. \<open>DoubleVectorDatum\<close> stands for every datum that
  \<^verbatim>\<open>updateValue< std::vector< double > >\<close> reads as a vector of doubles: the
  \<^verbatim>\<open>std::vector< double >\<close> that \<^verbatim>\<open>def\<close> stores and the \<^verbatim>\<open>ArrayDatum\<close> of doubles that
  \<^verbatim>\<open>Parameters_::get\<close> builds for \<^verbatim>\<open>tau_syn\<close>. The type \<^verbatim>\<open>model_type\<close> of the variant tag is
  a string.
\<close>

datatype Datum =
  DoubleDatum real
  | DoubleVectorDatum "real list"
  | BoolDatum bool
  | StringDatum string

type_synonym DictionaryDatum = "Name \<rightharpoonup> Datum"

datatype error =
  BadProperty string
  | TypeMismatch
  | IncompatibleReceptorType int
  | AssertionFailed string
  | OutOfRange

text \<open>
  Modelled from the spec: \<^verbatim>\<open>getValue\<close> and \<^verbatim>\<open>updateValue\<close> of \<^verbatim>\<open>sli/dictutils.h\<close> are not
  among the sources. By section 4.1, \<^verbatim>\<open>set(updates)\<close> applies only the fields present in
  \<^verbatim>\<open>updates\<close>: \<^verbatim>\<open>updateValue\<close> answers false and leaves its target alone when the key is
  absent, and otherwise stores the entry's value and answers true. An entry whose datum is
  not of the type asked for is a \<open>TypeMismatch\<close>.
\<close>

definition getValue_double :: "Datum \<Rightarrow> error + real" where
  "getValue_double t = (case t of DoubleDatum x \<Rightarrow> Inr x | _ \<Rightarrow> Inl TypeMismatch)"

definition getValue_vector :: "Datum \<Rightarrow> error + real list" where
  "getValue_vector t = (case t of DoubleVectorDatum xs \<Rightarrow> Inr xs | _ \<Rightarrow> Inl TypeMismatch)"

definition getValue_string :: "Datum \<Rightarrow> error + string" where
  "getValue_string t = (case t of StringDatum s \<Rightarrow> Inr s | _ \<Rightarrow> Inl TypeMismatch)"

text \<open>
  A statement that runs on an object of type \<open>'s\<close>: it returns a value or throws, and
  leaves the object as it has mutated it so far.
\<close>

type_synonym ('s, 'a) stmt = "'s \<Rightarrow> (error + 'a) \<times> 's"

definition return_stmt :: "'a \<Rightarrow> ('s, 'a) stmt" where
  "return_stmt a = (\<lambda>s. (Inr a, s))"

definition then_stmt :: "('s, 'a) stmt \<Rightarrow> ('a \<Rightarrow> ('s, 'b) stmt) \<Rightarrow> ('s, 'b) stmt" where
  "then_stmt m f = (\<lambda>s. case m s of (Inl e, s') \<Rightarrow> (Inl e, s') | (Inr a, s') \<Rightarrow> f a s')"

definition read_member :: "('s \<Rightarrow> 'a) \<Rightarrow> ('s, 'a) stmt" where
  "read_member field = (\<lambda>s. (Inr (field s), s))"

definition assign :: "('s \<Rightarrow> 's) \<Rightarrow> ('s, unit) stmt" where
  "assign f = (\<lambda>s. (Inr (), f s))"

definition updateValue ::
  "(Datum \<Rightarrow> error + 'a) \<Rightarrow> DictionaryDatum \<Rightarrow> Name \<Rightarrow> ('a \<Rightarrow> 's \<Rightarrow> 's) \<Rightarrow> ('s, bool) stmt" where
  "updateValue getValue d n store =
     (\<lambda>s. case d n of
        None \<Rightarrow> (Inr False, s)
      | Some t \<Rightarrow> (case getValue t of Inl e \<Rightarrow> (Inl e, s) | Inr x \<Rightarrow> (Inr True, store x s)))"

subsection \<open>Parameters\<close>

record Parameters =
  P_E_L :: real
  P_G :: real
  P_th_inf :: real
  P_C_m :: real
  P_t_ref :: real
  P_V_reset :: real
  P_a_spike :: real
  P_b_spike :: real
  P_voltage_reset_a :: real
  P_voltage_reset_b :: real
  P_a_voltage :: real
  P_b_voltage :: real
  P_asc_init :: "real list"
  P_k :: "real list"
  P_asc_amps :: "real list"
  P_r :: "real list"
  P_tau_syn :: "real list"
  P_has_connections :: bool
  P_glif_model :: string

text \<open>The default constructor \<^verbatim>\<open>Parameters_::Parameters_()\<close>.\<close>

definition Parameters_default :: Parameters where
  "Parameters_default =
     \<lparr> P_E_L = - 7885 / 100, P_G = 943 / 100, P_th_inf = 2717 / 100, P_C_m = 5872 / 100,
       P_t_ref = 375 / 100, P_V_reset = 0, P_a_spike = 37 / 100, P_b_spike = 9 / 1000,
       P_voltage_reset_a = 20 / 100, P_voltage_reset_b = 1851 / 100,
       P_a_voltage = 5 / 1000, P_b_voltage = 9 / 100,
       P_asc_init = [0, 0], P_k = [3 / 1000, 1 / 10],
       P_asc_amps = [- 918 / 100, - 19894 / 100], P_r = [1, 1],
       P_tau_syn = [2], P_has_connections = False, P_glif_model = ''lif'' \<rparr>"

text \<open>
  Modelled from the spec: \<^verbatim>\<open>n_receptors_()\<close> is declared in \<^verbatim>\<open>glif_psc.h\<close>, which is not
  among the sources. By section 3 the number of receptor ports is the number of synaptic
  time constants.
\<close>

definition n_receptors :: "Parameters \<Rightarrow> nat" where
  "n_receptors p = length (P_tau_syn p)"

text \<open>\<^verbatim>\<open>Parameters_::get\<close>: the entries are defined into the dictionary passed in.\<close>

definition Parameters_get :: "Parameters \<Rightarrow> DictionaryDatum \<Rightarrow> DictionaryDatum" where
  "Parameters_get p d =
     d(names_V_th \<mapsto> DoubleDatum (P_th_inf p + P_E_L p),
       names_g \<mapsto> DoubleDatum (P_G p),
       names_E_L \<mapsto> DoubleDatum (P_E_L p),
       names_C_m \<mapsto> DoubleDatum (P_C_m p),
       names_t_ref \<mapsto> DoubleDatum (P_t_ref p),
       names_V_reset \<mapsto> DoubleDatum (P_V_reset p + P_E_L p),
       names_a_spike \<mapsto> DoubleDatum (P_a_spike p),
       names_b_spike \<mapsto> DoubleDatum (P_b_spike p),
       names_a_reset \<mapsto> DoubleDatum (P_voltage_reset_a p),
       names_b_reset \<mapsto> DoubleDatum (P_voltage_reset_b p),
       names_a_voltage \<mapsto> DoubleDatum (P_a_voltage p),
       names_b_voltage \<mapsto> DoubleDatum (P_b_voltage p),
       names_asc_init \<mapsto> DoubleVectorDatum (P_asc_init p),
       names_k \<mapsto> DoubleVectorDatum (P_k p),
       names_asc_amps \<mapsto> DoubleVectorDatum (P_asc_amps p),
       names_r \<mapsto> DoubleVectorDatum (P_r p),
       names_tau_syn \<mapsto> DoubleVectorDatum (P_tau_syn p),
       names_has_connections \<mapsto> BoolDatum (P_has_connections p),
       names_glif_model \<mapsto> StringDatum (P_glif_model p))"

text \<open>The loops of \<^verbatim>\<open>Parameters_::set\<close> that throw at the first entry that is not positive.\<close>

primrec some_not_positive :: "real list \<Rightarrow> bool" where
  "some_not_positive [] = False"
| "some_not_positive (x # xs) = (if x \<le> 0 then True else some_not_positive xs)"

definition throw_if :: "('s \<Rightarrow> bool) \<Rightarrow> error \<Rightarrow> ('s, unit) stmt" where
  "throw_if cond e = (\<lambda>s. if cond s then (Inl e, s) else (Inr (), s))"

text \<open>
  \<^verbatim>\<open>Parameters_::set\<close>, statement by statement. It mutates the object it is called on and
  returns \<^verbatim>\<open>delta_EL\<close>.
\<close>

definition Parameters_set :: "DictionaryDatum \<Rightarrow> (Parameters, real) stmt" where
  "Parameters_set d =
     then_stmt (read_member P_E_L) (\<lambda>ELold.
     then_stmt (updateValue getValue_double d names_E_L (\<lambda>x p. p\<lparr>P_E_L := x\<rparr>)) (\<lambda>_.
     then_stmt (read_member (\<lambda>p. P_E_L p - ELold)) (\<lambda>delta_EL.
     then_stmt (updateValue getValue_double d names_V_reset (\<lambda>x p. p\<lparr>P_V_reset := x\<rparr>)) (\<lambda>found.
     then_stmt (assign (\<lambda>p. if found then p\<lparr>P_V_reset := P_V_reset p - P_E_L p\<rparr>
                              else p\<lparr>P_V_reset := P_V_reset p - delta_EL\<rparr>)) (\<lambda>_.
     then_stmt (updateValue getValue_double d names_V_th (\<lambda>x p. p\<lparr>P_th_inf := x\<rparr>)) (\<lambda>found.
     then_stmt (assign (\<lambda>p. if found then p\<lparr>P_th_inf := P_th_inf p - P_E_L p\<rparr>
                              else p\<lparr>P_th_inf := P_th_inf p - delta_EL\<rparr>)) (\<lambda>_.
     then_stmt (updateValue getValue_double d names_g (\<lambda>x p. p\<lparr>P_G := x\<rparr>)) (\<lambda>_.
     then_stmt (updateValue getValue_double d names_C_m (\<lambda>x p. p\<lparr>P_C_m := x\<rparr>)) (\<lambda>_.
     then_stmt (updateValue getValue_double d names_t_ref (\<lambda>x p. p\<lparr>P_t_ref := x\<rparr>)) (\<lambda>_.
     then_stmt (updateValue getValue_double d names_a_spike (\<lambda>x p. p\<lparr>P_a_spike := x\<rparr>)) (\<lambda>_.
     then_stmt (updateValue getValue_double d names_b_spike (\<lambda>x p. p\<lparr>P_b_spike := x\<rparr>)) (\<lambda>_.
     then_stmt (updateValue getValue_double d names_a_reset (\<lambda>x p. p\<lparr>P_voltage_reset_a := x\<rparr>)) (\<lambda>_.
     then_stmt (updateValue getValue_double d names_b_reset (\<lambda>x p. p\<lparr>P_voltage_reset_b := x\<rparr>)) (\<lambda>_.
     then_stmt (updateValue getValue_double d names_a_voltage (\<lambda>x p. p\<lparr>P_a_voltage := x\<rparr>)) (\<lambda>_.
     then_stmt (updateValue getValue_double d names_b_voltage (\<lambda>x p. p\<lparr>P_b_voltage := x\<rparr>)) (\<lambda>_.
     then_stmt (updateValue getValue_vector d names_asc_init (\<lambda>x p. p\<lparr>P_asc_init := x\<rparr>)) (\<lambda>_.
     then_stmt (updateValue getValue_vector d names_k (\<lambda>x p. p\<lparr>P_k := x\<rparr>)) (\<lambda>_.
     then_stmt (updateValue getValue_vector d names_asc_amps (\<lambda>x p. p\<lparr>P_asc_amps := x\<rparr>)) (\<lambda>_.
     then_stmt (updateValue getValue_vector d names_r (\<lambda>x p. p\<lparr>P_r := x\<rparr>)) (\<lambda>_.
     then_stmt (updateValue getValue_vector d names_tau_syn (\<lambda>x p. p\<lparr>P_tau_syn := x\<rparr>)) (\<lambda>_.
     then_stmt (updateValue getValue_string d names_glif_model (\<lambda>x p. p\<lparr>P_glif_model := x\<rparr>)) (\<lambda>_.
     then_stmt (throw_if (\<lambda>p. P_V_reset p \<ge> P_th_inf p)
        (BadProperty ''Reset potential must be smaller than threshold.'')) (\<lambda>_.
     then_stmt (throw_if (\<lambda>p. P_C_m p \<le> 0)
        (BadProperty ''Capacitance must be strictly positive.'')) (\<lambda>_.
     then_stmt (throw_if (\<lambda>p. P_G p \<le> 0)
        (BadProperty ''Membrane conductance must be strictly positive.'')) (\<lambda>_.
     then_stmt (throw_if (\<lambda>p. P_t_ref p \<le> 0)
        (BadProperty ''Refractory time constant must be strictly positive.'')) (\<lambda>_.
     then_stmt (throw_if (\<lambda>p. P_b_voltage p \<le> 0)
        (BadProperty ''Voltage-induced threshold time constant must be strictly positive.'')) (\<lambda>_.
     then_stmt (throw_if (\<lambda>p. P_b_spike p \<le> 0)
        (BadProperty ''Spike induced threshold time constant must be strictly positive.'')) (\<lambda>_.
     then_stmt (throw_if (\<lambda>p. some_not_positive (P_k p))
        (BadProperty ''After-spike current time constant must be strictly positive.'')) (\<lambda>_.
     then_stmt (read_member n_receptors) (\<lambda>old_n_receptors.
     then_stmt (updateValue getValue_vector d names_tau_syn (\<lambda>x p. p\<lparr>P_tau_syn := x\<rparr>)) (\<lambda>found.
     then_stmt (if found
        then then_stmt (throw_if (\<lambda>p. n_receptors p \<noteq> old_n_receptors \<and> P_has_connections p = True)
               (BadProperty ''The neuron has connections, therefore the number of ports cannot be reduced.'')) (\<lambda>_.
             throw_if (\<lambda>p. some_not_positive (P_tau_syn p))
               (BadProperty ''All synaptic time constants must be strictly positive.''))
        else return_stmt ()) (\<lambda>_.
     return_stmt delta_EL))))))))))))))))))))))))))))))))"

text \<open>
  What \<^verbatim>\<open>Parameters_::set\<close> computes, written without the statement sequence: the value
  an entry contributes to a member, the dictionaries whose entries all have the type they
  are read at, the object after the assignments, and the checks in their order. The
  theorems below relate them to \<open>Parameters_set\<close>.
\<close>

definition entry_double :: "DictionaryDatum \<Rightarrow> Name \<Rightarrow> real \<Rightarrow> real" where
  "entry_double d n cur = (case d n of Some (DoubleDatum x) \<Rightarrow> x | _ \<Rightarrow> cur)"

definition entry_vector :: "DictionaryDatum \<Rightarrow> Name \<Rightarrow> real list \<Rightarrow> real list" where
  "entry_vector d n cur = (case d n of Some (DoubleVectorDatum x) \<Rightarrow> x | _ \<Rightarrow> cur)"

definition entry_string :: "DictionaryDatum \<Rightarrow> Name \<Rightarrow> string \<Rightarrow> string" where
  "entry_string d n cur = (case d n of Some (StringDatum x) \<Rightarrow> x | _ \<Rightarrow> cur)"

definition readable :: "(Datum \<Rightarrow> error + 'a) \<Rightarrow> DictionaryDatum \<Rightarrow> Name \<Rightarrow> bool" where
  "readable getValue d n =
     (case d n of None \<Rightarrow> True
      | Some t \<Rightarrow> (case getValue t of Inl _ \<Rightarrow> False | Inr _ \<Rightarrow> True))"

definition well_typed :: "DictionaryDatum \<Rightarrow> bool" where
  "well_typed d \<longleftrightarrow>
     readable getValue_double d names_E_L \<and> readable getValue_double d names_V_reset \<and>
     readable getValue_double d names_V_th \<and> readable getValue_double d names_g \<and>
     readable getValue_double d names_C_m \<and> readable getValue_double d names_t_ref \<and>
     readable getValue_double d names_a_spike \<and> readable getValue_double d names_b_spike \<and>
     readable getValue_double d names_a_reset \<and> readable getValue_double d names_b_reset \<and>
     readable getValue_double d names_a_voltage \<and> readable getValue_double d names_b_voltage \<and>
     readable getValue_vector d names_asc_init \<and> readable getValue_vector d names_k \<and>
     readable getValue_vector d names_asc_amps \<and> readable getValue_vector d names_r \<and>
     readable getValue_vector d names_tau_syn \<and> readable getValue_string d names_glif_model"

definition Parameters_updated :: "DictionaryDatum \<Rightarrow> Parameters \<Rightarrow> Parameters" where
  "Parameters_updated d p =
     p\<lparr> P_E_L := entry_double d names_E_L (P_E_L p),
        P_V_reset := (if d names_V_reset \<noteq> None
          then entry_double d names_V_reset (P_V_reset p) - entry_double d names_E_L (P_E_L p)
          else entry_double d names_V_reset (P_V_reset p)
               - (entry_double d names_E_L (P_E_L p) - P_E_L p)),
        P_th_inf := (if d names_V_th \<noteq> None
          then entry_double d names_V_th (P_th_inf p) - entry_double d names_E_L (P_E_L p)
          else entry_double d names_V_th (P_th_inf p)
               - (entry_double d names_E_L (P_E_L p) - P_E_L p)),
        P_G := entry_double d names_g (P_G p),
        P_C_m := entry_double d names_C_m (P_C_m p),
        P_t_ref := entry_double d names_t_ref (P_t_ref p),
        P_a_spike := entry_double d names_a_spike (P_a_spike p),
        P_b_spike := entry_double d names_b_spike (P_b_spike p),
        P_voltage_reset_a := entry_double d names_a_reset (P_voltage_reset_a p),
        P_voltage_reset_b := entry_double d names_b_reset (P_voltage_reset_b p),
        P_a_voltage := entry_double d names_a_voltage (P_a_voltage p),
        P_b_voltage := entry_double d names_b_voltage (P_b_voltage p),
        P_asc_init := entry_vector d names_asc_init (P_asc_init p),
        P_k := entry_vector d names_k (P_k p),
        P_asc_amps := entry_vector d names_asc_amps (P_asc_amps p),
        P_r := entry_vector d names_r (P_r p),
        P_tau_syn := entry_vector d names_tau_syn (P_tau_syn p),
        P_glif_model := entry_string d names_glif_model (P_glif_model p) \<rparr>"

definition validate :: "bool \<Rightarrow> real \<Rightarrow> Parameters \<Rightarrow> (error + real) \<times> Parameters" where
  "validate tau_syn_given delta_EL p =
     (if P_th_inf p \<le> P_V_reset p
        then (Inl (BadProperty ''Reset potential must be smaller than threshold.''), p)
      else if P_C_m p \<le> 0
        then (Inl (BadProperty ''Capacitance must be strictly positive.''), p)
      else if P_G p \<le> 0
        then (Inl (BadProperty ''Membrane conductance must be strictly positive.''), p)
      else if P_t_ref p \<le> 0
        then (Inl (BadProperty ''Refractory time constant must be strictly positive.''), p)
      else if P_b_voltage p \<le> 0
        then (Inl (BadProperty
               ''Voltage-induced threshold time constant must be strictly positive.''), p)
      else if P_b_spike p \<le> 0
        then (Inl (BadProperty
               ''Spike induced threshold time constant must be strictly positive.''), p)
      else if some_not_positive (P_k p)
        then (Inl (BadProperty
               ''After-spike current time constant must be strictly positive.''), p)
      else if tau_syn_given
        then (if some_not_positive (P_tau_syn p)
          then (Inl (BadProperty ''All synaptic time constants must be strictly positive.''), p)
          else (Inr delta_EL, p))
      else (Inr delta_EL, p))"

text \<open>The names under which \<^verbatim>\<open>Parameters_::get\<close> defines an entry.\<close>

definition parameter_names :: "Name list" where
  "parameter_names =
     [names_V_th, names_g, names_E_L, names_C_m, names_t_ref, names_V_reset,
      names_a_spike, names_b_spike, names_a_reset, names_b_reset,
      names_a_voltage, names_b_voltage,
      names_asc_init, names_k, names_asc_amps, names_r, names_tau_syn,
      names_has_connections, names_glif_model]"

subsection \<open>State, internal variables and buffers\<close>

record State =
  S_U :: real
  S_ASCurrents :: "real list"
  S_ASCurrents_sum :: real
  S_threshold :: real
  S_I :: real
  S_I_syn :: real
  S_y1 :: "real list"
  S_y2 :: "real list"

record Variables =
  V_t_ref_remaining :: real
  V_t_ref_total :: real
  V_last_spike :: real
  V_last_voltage :: real
  V_P11 :: "real list"
  V_P21 :: "real list"
  V_P22 :: "real list"
  V_P31 :: "real list"
  V_P32 :: "real list"
  V_P30 :: real
  V_P33 :: real
  V_PSCInitialValues :: "real list"

text \<open>
  Modelled from the spec: \<^verbatim>\<open>RingBuffer\<close> (\<^verbatim>\<open>nestkernel/ring_buffer.h\<close>) is not among the
  sources. By sections 3 and 4.3 it holds a bounded horizon of pending entries, one
  accumulated weight per future step; \<^verbatim>\<open>add\<close> adds a weight into the bucket of a step
  offset, weights for the same step add up, and \<^verbatim>\<open>consume\<close> returns and clears the value of
  an offset. An offset beyond the horizon is reported. The buffer is the list of its
  buckets, indexed by the offset from the origin of the current slice.
\<close>

type_synonym RingBuffer = "real list"

definition add_value :: "nat \<Rightarrow> real \<Rightarrow> (RingBuffer, unit) stmt" where
  "add_value offs w =
     (\<lambda>buf. if offs < length buf then (Inr (), buf[offs := buf ! offs + w])
            else (Inl OutOfRange, buf))"

definition get_value :: "nat \<Rightarrow> (RingBuffer, real) stmt" where
  "get_value offs =
     (\<lambda>buf. if offs < length buf then (Inr (buf ! offs), buf[offs := 0])
            else (Inl OutOfRange, buf))"

text \<open>
  \<^verbatim>\<open>RingBuffer::resize()\<close> sizes the buffer to the horizon of the kernel and clears it when
  the size changes.
\<close>

definition RingBuffer_resize :: "nat \<Rightarrow> RingBuffer \<Rightarrow> RingBuffer" where
  "RingBuffer_resize horizon buf = (if length buf \<noteq> horizon then replicate horizon 0 else buf)"

record Buffers =
  B_spikes :: "RingBuffer list"
  B_currents :: RingBuffer

text \<open>
  The node. Besides the four structs it records what \<^verbatim>\<open>update\<close> hands to its
  collaborators: the calls of \<^verbatim>\<open>set_spiketime\<close> (step and offset), the spike events sent
  (lag and offset) and the arguments of the diagnostic \<^verbatim>\<open>printf\<close>. The data logger is not
  modelled.
\<close>

record glif_psc =
  node_P :: Parameters
  node_S :: State
  node_V :: Variables
  node_B :: Buffers
  node_spiketimes :: "(nat \<times> real) list"
  node_sent :: "(nat \<times> real) list"
  node_printed :: "(real \<times> real) list"

definition State_get :: "Parameters \<Rightarrow> State \<Rightarrow> DictionaryDatum \<Rightarrow> DictionaryDatum" where
  "State_get p s d =
     d(names_V_m \<mapsto> DoubleDatum (S_U s + P_E_L p),
       names_ASCurrents \<mapsto> DoubleVectorDatum (S_ASCurrents s))"

definition State_set :: "DictionaryDatum \<Rightarrow> Parameters \<Rightarrow> real \<Rightarrow> (State, unit) stmt" where
  "State_set d p delta_EL =
     then_stmt (updateValue getValue_double d names_V_m (\<lambda>x s. s\<lparr>S_U := x\<rparr>)) (\<lambda>found.
     then_stmt (assign (\<lambda>s. if found then s\<lparr>S_U := S_U s - P_E_L p\<rparr>
                              else s\<lparr>S_U := S_U s - delta_EL\<rparr>)) (\<lambda>_.
     then_stmt (updateValue getValue_vector d names_ASCurrents (\<lambda>x s. s\<lparr>S_ASCurrents := x\<rparr>)) (\<lambda>_.
     return_stmt ())))"

text \<open>
  \<^verbatim>\<open>get_status\<close> and \<^verbatim>\<open>set_status\<close>, as \<^verbatim>\<open>src/models/iaf_psc_alpha_multisynapse.h\<close> writes
  them (lines 280 to 307), on the parameters and the state of \<^verbatim>\<open>glif_psc\<close>: the header of
  \<^verbatim>\<open>glif_psc\<close> is not among the sources. \<^verbatim>\<open>Archiving_Node::set_status\<close> is not among them
  either and is a parameter; the entries of \<^verbatim>\<open>Archiving_Node::get_status\<close> and the list of
  recordables are left out.
\<close>

definition get_status :: "glif_psc \<Rightarrow> DictionaryDatum \<Rightarrow> DictionaryDatum" where
  "get_status node d = State_get (node_P node) (node_S node) (Parameters_get (node_P node) d)"

definition set_status ::
  "(DictionaryDatum \<Rightarrow> error + unit) \<Rightarrow> DictionaryDatum \<Rightarrow> (glif_psc, unit) stmt" where
  "set_status Archiving_Node_set_status d =
     (\<lambda>node.
        case Parameters_set d (node_P node) of
          (Inl e, _) \<Rightarrow> (Inl e, node)
        | (Inr delta_EL, ptmp) \<Rightarrow>
            (case State_set d ptmp delta_EL (node_S node) of
               (Inl e, _) \<Rightarrow> (Inl e, node)
             | (Inr _, stmp) \<Rightarrow>
                 (case Archiving_Node_set_status d of
                    Inl e \<Rightarrow> (Inl e, node)
                  | Inr _ \<Rightarrow> (Inr (), node\<lparr>node_P := ptmp, node_S := stmp\<rparr>))))"

text \<open>\<^verbatim>\<open>handles_test_event( SpikeEvent&, rport )\<close>: a connection to a receptor port.\<close>

definition handles_test_event :: "int \<Rightarrow> (glif_psc, int) stmt" where
  "handles_test_event receptor_type =
     (\<lambda>node.
        if receptor_type \<le> 0 \<or> receptor_type > int (n_receptors (node_P node))
        then (Inl (IncompatibleReceptorType receptor_type), node)
        else (Inr receptor_type, node\<lparr>node_P := (node_P node)\<lparr>P_has_connections := True\<rparr>\<rparr>))"

subsection \<open>Calibration\<close>

text \<open>\<^verbatim>\<open>std::vector::resize\<close>: cut to \<open>n\<close> elements, or padded with a default element.\<close>

definition resize_vector :: "nat \<Rightarrow> 'a \<Rightarrow> 'a list \<Rightarrow> 'a list" where
  "resize_vector n x xs = take n xs @ replicate (n - length xs) x"

text \<open>
  The body of the loop over the receptors in \<^verbatim>\<open>calibrate\<close>. \<^verbatim>\<open>propagator_31\<close> and
  \<^verbatim>\<open>propagator_32\<close> (\<^verbatim>\<open>libnestutil/propagator_stability.h\<close>) are not among the sources and are
  parameters; \<^verbatim>\<open>numerics::e\<close> is \<open>exp 1\<close>. The loop runs over the indices of vectors just
  resized to the number of receptors, so that every access is in range.
\<close>

definition calibrate_receptor ::
  "real \<Rightarrow> nat \<Rightarrow> (real \<Rightarrow> real \<Rightarrow> real \<Rightarrow> real \<Rightarrow> real) \<Rightarrow> (real \<Rightarrow> real \<Rightarrow> real \<Rightarrow> real \<Rightarrow> real)
   \<Rightarrow> real \<Rightarrow> nat \<Rightarrow> glif_psc \<Rightarrow> glif_psc" where
  "calibrate_receptor h horizon propagator_31 propagator_32 Tau i node =
     (let P = node_P node; V = node_V node; B = node_B node;
          P11 = exp (- h / P_tau_syn P ! i)
      in node\<lparr>node_V := V\<lparr>V_P22 := (V_P22 V)[i := P11],
                            V_P11 := (V_P11 V)[i := P11],
                            V_P21 := (V_P21 V)[i := h * P11],
                            V_P31 := (V_P31 V)[i := propagator_31 (P_tau_syn P ! i) Tau (P_C_m P) h],
                            V_P32 := (V_P32 V)[i := propagator_32 (P_tau_syn P ! i) Tau (P_C_m P) h],
                            V_PSCInitialValues :=
                              (V_PSCInitialValues V)[i := 1 * exp 1 / P_tau_syn P ! i]\<rparr>,
              node_B := B\<lparr>B_spikes := (B_spikes B)[i := RingBuffer_resize horizon (B_spikes B ! i)]\<rparr>\<rparr>)"

text \<open>
  \<^verbatim>\<open>calibrate\<close>, for the resolution \<open>h\<close> in ms and the horizon of the ring buffers that the
  kernel configures.
\<close>

definition calibrate ::
  "real \<Rightarrow> nat \<Rightarrow> (real \<Rightarrow> real \<Rightarrow> real \<Rightarrow> real \<Rightarrow> real) \<Rightarrow> (real \<Rightarrow> real \<Rightarrow> real \<Rightarrow> real \<Rightarrow> real)
   \<Rightarrow> glif_psc \<Rightarrow> glif_psc" where
  "calibrate h horizon propagator_31 propagator_32 node =
     (let P = node_P node; V = node_V node; S = node_S node; B = node_B node;
          n = n_receptors P;
          V = V\<lparr>V_t_ref_remaining := 0, V_t_ref_total := P_t_ref P,
                V_last_spike := 0, V_last_voltage := 0\<rparr>;
          V = V\<lparr>V_P11 := resize_vector n 0 (V_P11 V), V_P21 := resize_vector n 0 (V_P21 V),
                V_P22 := resize_vector n 0 (V_P22 V), V_P31 := resize_vector n 0 (V_P31 V),
                V_P32 := resize_vector n 0 (V_P32 V)\<rparr>;
          S = S\<lparr>S_y1 := resize_vector n 0 (S_y1 S), S_y2 := resize_vector n 0 (S_y2 S)\<rparr>;
          V = V\<lparr>V_PSCInitialValues := resize_vector n 0 (V_PSCInitialValues V)\<rparr>;
          B = B\<lparr>B_spikes := resize_vector n [] (B_spikes B)\<rparr>;
          Tau = P_C_m P / P_G P;
          V = V\<lparr>V_P33 := exp (- h / Tau)\<rparr>;
          V = V\<lparr>V_P30 := 1 / P_C_m P * (1 - V_P33 V) * Tau\<rparr>
      in fold (calibrate_receptor h horizon propagator_31 propagator_32 Tau) [0..<n]
           (node\<lparr>node_S := S, node_V := V, node_B := B\<rparr>))"

subsection \<open>Update\<close>

text \<open>
  A loop whose body may fail: the indices in order, until the first error. An access
  \<^verbatim>\<open>v[ i ]\<close> to a \<^verbatim>\<open>std::vector\<close> outside its range is undefined in C++; the loop bodies
  below check the index and end in \<open>OutOfRange\<close>.
\<close>

primrec for_stmt :: "nat list \<Rightarrow> (nat \<Rightarrow> ('s, unit) stmt) \<Rightarrow> ('s, unit) stmt" where
  "for_stmt [] body = return_stmt ()"
| "for_stmt (i # idx) body = then_stmt (body i) (\<lambda>_. for_stmt idx body)"

text \<open>The local variables of \<^verbatim>\<open>update\<close> that live across the iterations of its loop.\<close>

record Locals =
  loc_v_old :: real
  loc_spike_component :: real
  loc_voltage_component :: real
  loc_th_old :: real

text \<open>\<^verbatim>\<open>::tolower\<close> in the C locale.\<close>

definition tolower :: "char \<Rightarrow> char" where
  "tolower c =
     (let n = (of_char c :: nat) in if 65 \<le> n \<and> n \<le> 90 then char_of (n + 32) else c)"

text \<open>
  The spike offset (lines 514 to 518). Where the divisor is zero the C++ division gives an
  infinity or a NaN, which the real numbers do not have; the theorems on the offset assume
  a divisor that is not zero.
\<close>

definition spike_offset :: "real \<Rightarrow> real \<Rightarrow> real \<Rightarrow> real \<Rightarrow> real \<Rightarrow> real" where
  "spike_offset v_old th_old U threshold resolution =
     (1 - (v_old - th_old) / ((threshold - th_old) - (U - v_old))) * resolution"

text \<open>Lines 399 to 403: the spike component of the threshold.\<close>

definition decay_spike_component :: "real \<Rightarrow> int \<Rightarrow> glif_psc \<times> Locals \<Rightarrow> glif_psc \<times> Locals" where
  "decay_spike_component dt model_type =
     (\<lambda>(node, loc).
        let loc = (if model_type = 2 \<or> model_type = 4 \<or> model_type = 5
                   then loc\<lparr>loc_spike_component :=
                          V_last_spike (node_V node) * exp (- P_b_spike (node_P node) * dt)\<rparr>
                   else loc)
        in (node\<lparr>node_V := (node_V node)\<lparr>V_last_spike := loc_spike_component loc\<rparr>\<rparr>, loc))"

text \<open>Lines 418 to 423: the body of the loop that resets the after-spike currents.\<close>

definition reset_ASCurrent :: "nat \<Rightarrow> (glif_psc, unit) stmt" where
  "reset_ASCurrent a =
     (\<lambda>node.
        let P = node_P node; S = node_S node in
        if a < length (S_ASCurrents S) \<and> a < length (P_asc_amps P)
           \<and> a < length (P_r P) \<and> a < length (P_k P)
        then (Inr (), node\<lparr>node_S := S\<lparr>S_ASCurrents := (S_ASCurrents S)[a :=
                 P_asc_amps P ! a
                 + S_ASCurrents S ! a * P_r P ! a
                   * exp (- P_k P ! a * V_t_ref_total (node_V node))]\<rparr>\<rparr>)
        else (Inl OutOfRange, node))"

text \<open>
  Lines 411 to 455: the neuron leaves the refractory period. A failed \<^verbatim>\<open>assert\<close> ends the
  process: it is the error \<open>AssertionFailed\<close>, after the diagnostic is printed.
\<close>

definition leave_refractory :: "int \<Rightarrow> (glif_psc, unit) stmt" where
  "leave_refractory model_type =
     then_stmt (if model_type = 3 \<or> model_type = 4 \<or> model_type = 5
                then (\<lambda>node. for_stmt [0..<length (S_ASCurrents (node_S node))] reset_ASCurrent node)
                else return_stmt ()) (\<lambda>_.
     then_stmt (assign (\<lambda>node.
        if model_type = 1 \<or> model_type = 3
        then node\<lparr>node_S := (node_S node)\<lparr>S_U := P_V_reset (node_P node)\<rparr>\<rparr>
        else
          (let node = node\<lparr>node_S := (node_S node)\<lparr>S_U :=
                        P_voltage_reset_a (node_P node) * S_U (node_S node)
                        + P_voltage_reset_b (node_P node)\<rparr>\<rparr>;
               node = node\<lparr>node_V := (node_V node)\<lparr>V_last_spike :=
                        V_last_spike (node_V node) + P_a_spike (node_P node)\<rparr>\<rparr>
           in node\<lparr>node_S := (node_S node)\<lparr>S_threshold :=
                        V_last_spike (node_V node) + V_last_voltage (node_V node)
                        + P_th_inf (node_P node)\<rparr>\<rparr>))) (\<lambda>_.
     then_stmt (assign (\<lambda>node.
        if S_U (node_S node) > S_threshold (node_S node)
        then node\<lparr>node_printed :=
               node_printed node @ [(S_U (node_S node), S_threshold (node_S node))]\<rparr>
        else node)) (\<lambda>_.
     throw_if (\<lambda>node. \<not> S_U (node_S node) \<le> S_threshold (node_S node))
       (AssertionFailed ''S_.U_ <= S_.threshold_''))))"

text \<open>
  The count-down of the refractory time (line 409) subtracts in \<^verbatim>\<open>double\<close>, the format
  binary64 of IEEE 754: the result is the exact difference rounded to the nearest number of
  the format, a tie to the one with the even significand. How many steps a refractory
  period has depends on that rounding, so this subtraction is modelled with it.
  \<open>round_even\<close> is the nearest integer, a tie to the even one. \<open>binade x\<close> is the exponent
  \<open>e\<close> with \<open>2 ^ e \<le> \<bar>x\<bar> < 2 ^ (e + 1)\<close>, and - 1022, the exponent of the subnormal
  numbers, for every smaller \<open>x\<close>; the numbers of the format are \<open>2 ^ (e - 52)\<close> apart
  there, with their 53 significant bits. The real numbers have no infinity: beyond the
  greatest finite number of the format the model goes on with the spacing of the last
  binade.
\<close>

definition round_even :: "real \<Rightarrow> int" where
  "round_even x =
     (let n = \<lfloor>x\<rfloor>; r = x - of_int n
      in if r < 1 / 2 then n else if 1 / 2 < r then n + 1 else if even n then n else n + 1)"

definition binade :: "real \<Rightarrow> int" where
  "binade x =
     (case find (\<lambda>e. \<bar>x\<bar> < 2 powi (e + 1)) [- 1022..1023] of
        Some e \<Rightarrow> e | None \<Rightarrow> 1023)"

definition round_double :: "real \<Rightarrow> real" where
  "round_double x =
     (let ulp = 2 powi (binade x - 52) in of_int (round_even (x / ulp)) * ulp)"

text \<open>Lines 405 to 460: a step in the refractory period.\<close>

definition refractory :: "real \<Rightarrow> int \<Rightarrow> (glif_psc \<times> Locals, unit) stmt" where
  "refractory dt model_type =
     (\<lambda>(node, loc).
        let node = node\<lparr>node_V := (node_V node)\<lparr>V_t_ref_remaining :=
                     round_double (V_t_ref_remaining (node_V node) - dt)\<rparr>\<rparr>
        in if V_t_ref_remaining (node_V node) \<le> 0
           then (case leave_refractory model_type node of (res, node) \<Rightarrow> (res, (node, loc)))
           else (Inr (), (node\<lparr>node_S := (node_S node)\<lparr>S_U := loc_v_old loc\<rparr>\<rparr>, loc)))"

text \<open>Lines 470 to 475 and 483 to 487: the bodies of the two loops of the integration.\<close>

definition decay_ASCurrent :: "real \<Rightarrow> nat \<Rightarrow> (glif_psc, unit) stmt" where
  "decay_ASCurrent dt a =
     (\<lambda>node.
        let P = node_P node; S = node_S node in
        if a < length (S_ASCurrents S) \<and> a < length (P_k P)
        then (Inr (), node\<lparr>node_S := S\<lparr>
                 S_ASCurrents_sum := S_ASCurrents_sum S + S_ASCurrents S ! a,
                 S_ASCurrents := (S_ASCurrents S)[a :=
                   S_ASCurrents S ! a * exp (- P_k P ! a * dt)]\<rparr>\<rparr>)
        else (Inl OutOfRange, node))"

definition add_synapse :: "nat \<Rightarrow> (glif_psc, unit) stmt" where
  "add_synapse i =
     (\<lambda>node.
        let S = node_S node; V = node_V node in
        if i < length (V_P31 V) \<and> i < length (S_y1 S)
           \<and> i < length (V_P32 V) \<and> i < length (S_y2 S)
        then (Inr (), node\<lparr>node_S := S\<lparr>
                 S_U := S_U S + (V_P31 V ! i * S_y1 S ! i + V_P32 V ! i * S_y2 S ! i),
                 S_I_syn := S_I_syn S + S_y2 S ! i\<rparr>\<rparr>)
        else (Inl OutOfRange, node))"

text \<open>Lines 466 to 487: the after-spike currents and the membrane potential.\<close>

definition integrate_voltage :: "real \<Rightarrow> int \<Rightarrow> real \<Rightarrow> (glif_psc, unit) stmt" where
  "integrate_voltage dt model_type v_old =
     then_stmt (assign (\<lambda>node. node\<lparr>node_S := (node_S node)\<lparr>S_ASCurrents_sum := 0\<rparr>\<rparr>)) (\<lambda>_.
     then_stmt (if model_type = 3 \<or> model_type = 4 \<or> model_type = 5
                then (\<lambda>node. for_stmt [0..<length (S_ASCurrents (node_S node))]
                                (decay_ASCurrent dt) node)
                else return_stmt ()) (\<lambda>_.
     then_stmt (assign (\<lambda>node. node\<lparr>node_S := (node_S node)\<lparr>S_U :=
        v_old * V_P33 (node_V node)
        + (S_I (node_S node) + S_ASCurrents_sum (node_S node)) * V_P30 (node_V node)\<rparr>\<rparr>)) (\<lambda>_.
     then_stmt (assign (\<lambda>node. node\<lparr>node_S := (node_S node)\<lparr>S_I_syn := 0\<rparr>\<rparr>)) (\<lambda>_.
     (\<lambda>node. for_stmt [0..<n_receptors (node_P node)] add_synapse node)))))"

text \<open>Lines 491 to 501: the voltage component of the threshold of the model 5.\<close>

definition voltage_component_of :: "real \<Rightarrow> real \<Rightarrow> glif_psc \<Rightarrow> real" where
  "voltage_component_of dt v_old node =
     (let P = node_P node; S = node_S node; V = node_V node;
          beta = (S_I S + S_ASCurrents_sum S) / P_G P;
          phi = P_a_voltage P / (P_b_voltage P - P_G P / P_C_m P)
      in phi * (v_old - beta) * exp (- P_G P * dt / P_C_m P)
         + 1 / (exp (P_b_voltage P * dt))
           * (V_last_voltage V - phi * (v_old - beta) - (P_a_voltage P / P_b_voltage P) * beta)
         + (P_a_voltage P / P_b_voltage P) * beta)"

text \<open>Lines 507 to 524: the threshold crossing.\<close>

definition detect_spike :: "real \<Rightarrow> nat \<Rightarrow> nat \<Rightarrow> Locals \<Rightarrow> glif_psc \<Rightarrow> glif_psc" where
  "detect_spike dt origin lag loc node =
     (if S_U (node_S node) > S_threshold (node_S node)
      then
        (let node = node\<lparr>node_V := (node_V node)\<lparr>V_t_ref_remaining :=
                      V_t_ref_total (node_V node)\<rparr>\<rparr>;
             offs = spike_offset (loc_v_old loc) (loc_th_old loc)
                      (S_U (node_S node)) (S_threshold (node_S node)) dt
         in node\<lparr>node_spiketimes := node_spiketimes node @ [(origin + lag + 1, offs)],
                 node_sent := node_sent node @ [(lag, offs)]\<rparr>)
      else node)"

text \<open>Lines 462 to 525: a step outside the refractory period.\<close>

definition integrate :: "real \<Rightarrow> int \<Rightarrow> nat \<Rightarrow> nat \<Rightarrow> (glif_psc \<times> Locals, unit) stmt" where
  "integrate dt model_type origin lag =
     (\<lambda>(node, loc).
        case integrate_voltage dt model_type (loc_v_old loc) node of
          (Inl e, node) \<Rightarrow> (Inl e, (node, loc))
        | (Inr _, node) \<Rightarrow>
            (let loc = (if model_type = 5
                        then loc\<lparr>loc_voltage_component :=
                               voltage_component_of dt (loc_v_old loc) node\<rparr>
                        else loc);
                 node = node\<lparr>node_S := (node_S node)\<lparr>S_threshold :=
                          V_last_spike (node_V node) + loc_voltage_component loc
                          + P_th_inf (node_P node)\<rparr>\<rparr>;
                 node = node\<lparr>node_V := (node_V node)\<lparr>V_last_voltage :=
                          loc_voltage_component loc\<rparr>\<rparr>
             in (Inr (), (detect_spike dt origin lag loc node, loc))))"

text \<open>Lines 528 to 537: the body of the loop over the alpha-shaped currents.\<close>

definition psc_receptor :: "nat \<Rightarrow> nat \<Rightarrow> (glif_psc, unit) stmt" where
  "psc_receptor lag i =
     (\<lambda>node.
        let S = node_S node; V = node_V node; B = node_B node in
        if i < length (S_y2 S) \<and> i < length (V_P21 V) \<and> i < length (S_y1 S)
           \<and> i < length (V_P22 V) \<and> i < length (V_P11 V)
           \<and> i < length (V_PSCInitialValues V) \<and> i < length (B_spikes B)
        then
          (let S = S\<lparr>S_y2 := (S_y2 S)[i := V_P21 V ! i * S_y1 S ! i + V_P22 V ! i * S_y2 S ! i]\<rparr>;
               S = S\<lparr>S_y1 := (S_y1 S)[i := S_y1 S ! i * V_P11 V ! i]\<rparr>
           in case get_value lag (B_spikes B ! i) of
                (Inl e, buf) \<Rightarrow> (Inl e, node\<lparr>node_S := S\<rparr>)
              | (Inr w, buf) \<Rightarrow>
                  (Inr (), node\<lparr>node_S := S\<lparr>S_y1 := (S_y1 S)[i :=
                                   S_y1 S ! i + V_PSCInitialValues V ! i * w]\<rparr>,
                               node_B := B\<lparr>B_spikes := (B_spikes B)[i := buf]\<rparr>\<rparr>))
        else (Inl OutOfRange, node))"

text \<open>
  Lines 527 to 553: the synaptic currents, the external current and the values kept for
  the next iteration. The sum \<^verbatim>\<open>cursum\<close> (lines 539 to 543) is never read; it and the call
  of the data logger are left out.
\<close>

definition consume_inputs :: "nat \<Rightarrow> (glif_psc \<times> Locals, unit) stmt" where
  "consume_inputs lag =
     (\<lambda>(node, loc).
        case for_stmt [0..<n_receptors (node_P node)] (psc_receptor lag) node of
          (Inl e, node) \<Rightarrow> (Inl e, (node, loc))
        | (Inr _, node) \<Rightarrow>
            (case get_value lag (B_currents (node_B node)) of
               (Inl e, buf) \<Rightarrow> (Inl e, (node, loc))
             | (Inr cur, buf) \<Rightarrow>
                 (let node = node\<lparr>node_S := (node_S node)\<lparr>S_I := cur\<rparr>,
                                  node_B := (node_B node)\<lparr>B_currents := buf\<rparr>\<rparr>
                  in (Inr (), (node, loc\<lparr>loc_v_old := S_U (node_S node),
                                          loc_th_old := S_threshold (node_S node)\<rparr>)))))"

text \<open>Lines 392 to 554: one iteration of the loop of \<^verbatim>\<open>update\<close>.\<close>

definition update_step :: "real \<Rightarrow> int \<Rightarrow> nat \<Rightarrow> nat \<Rightarrow> (glif_psc \<times> Locals, unit) stmt" where
  "update_step dt model_type origin lag =
     then_stmt (assign (decay_spike_component dt model_type)) (\<lambda>_.
     then_stmt (\<lambda>st. if V_t_ref_remaining (node_V (fst st)) > 0
                     then refractory dt model_type st
                     else integrate dt model_type origin lag st) (\<lambda>_.
     consume_inputs lag))"

text \<open>
  \<^verbatim>\<open>update\<close> for the steps \<open>from\<close> to \<open>to - 1\<close> of the slice that starts at the step
  \<open>origin\<close>, at the resolution \<open>dt\<close>. The table \<^verbatim>\<open>model_type_lu\<close> is declared in the header
  of \<^verbatim>\<open>glif_psc\<close>, which is not among the sources, and is a parameter.
\<close>

definition update :: "(string \<rightharpoonup> int) \<Rightarrow> real \<Rightarrow> nat \<Rightarrow> nat \<Rightarrow> nat \<Rightarrow> (glif_psc, unit) stmt" where
  "update model_type_lu dt origin from to =
     (\<lambda>node.
        let model_str = map tolower (P_glif_model (node_P node)) in
        case model_type_lu model_str of
          None \<Rightarrow> (Inl (BadProperty ''Bad glif model type string.''), node)
        | Some model_type \<Rightarrow>
            (let loc = \<lparr>loc_v_old = S_U (node_S node), loc_spike_component = 0,
                        loc_voltage_component = 0, loc_th_old = S_threshold (node_S node)\<rparr>
             in case for_stmt [from..<to] (update_step dt model_type origin) (node, loc) of
                  (res, (node, loc)) \<Rightarrow> (res, node)))"

subsection \<open>Events\<close>

text \<open>
  A spike event as \<^verbatim>\<open>handle\<close> reads it; \<open>e_rel_delivery_steps\<close> is what
  \<^verbatim>\<open>get_rel_delivery_steps\<close> answers for the origin of the current slice.
\<close>

record SpikeEvent =
  e_rport :: int
  e_delay_steps :: int
  e_rel_delivery_steps :: nat
  e_weight :: real
  e_multiplicity :: int

definition handle_SpikeEvent :: "SpikeEvent \<Rightarrow> (glif_psc, unit) stmt" where
  "handle_SpikeEvent e =
     (\<lambda>node.
        if \<not> e_delay_steps e > 0 then (Inl (AssertionFailed ''e.get_delay_steps() > 0''), node)
        else if e_rport e - 1 < 0 \<or> \<not> nat (e_rport e - 1) < length (B_spikes (node_B node))
        then (Inl OutOfRange, node)
        else
          (case add_value (e_rel_delivery_steps e) (e_weight e * real_of_int (e_multiplicity e))
                  (B_spikes (node_B node) ! nat (e_rport e - 1)) of
             (res, buf) \<Rightarrow>
               (res, node\<lparr>node_B := (node_B node)\<lparr>B_spikes :=
                             (B_spikes (node_B node))[nat (e_rport e - 1) := buf]\<rparr>\<rparr>)))"

subsection \<open>A node to run the model on\<close>

text \<open>
  The constructor \<^verbatim>\<open>State_::State_( const Parameters_& )\<close>. It copies the first two
  entries of \<^verbatim>\<open>asc_init_\<close>; the members it does not mention start at zero here.
\<close>

definition State_init :: "Parameters \<Rightarrow> State" where
  "State_init p =
     \<lparr> S_U = 0, S_ASCurrents = [P_asc_init p ! 0, P_asc_init p ! 1], S_ASCurrents_sum = 0,
       S_threshold = - 5168 / 100 - P_E_L p, S_I = 0, S_I_syn = 0, S_y1 = [], S_y2 = [] \<rparr>"

text \<open>
  The default constructor \<^verbatim>\<open>glif_psc::glif_psc()\<close>, with empty buffers and with internal
  variables that \<^verbatim>\<open>calibrate\<close> has not yet set.
\<close>

definition glif_psc_default :: glif_psc where
  "glif_psc_default =
     \<lparr> node_P = Parameters_default, node_S = State_init Parameters_default,
       node_V = \<lparr> V_t_ref_remaining = 0, V_t_ref_total = 0, V_last_spike = 0,
                  V_last_voltage = 0, V_P11 = [], V_P21 = [], V_P22 = [], V_P31 = [],
                  V_P32 = [], V_P30 = 0, V_P33 = 0, V_PSCInitialValues = [] \<rparr>,
       node_B = \<lparr> B_spikes = [], B_currents = [] \<rparr>,
       node_spiketimes = [], node_sent = [], node_printed = [] \<rparr>"

text \<open>
  A table of model types to instantiate the parameter \<open>model_type_lu\<close> of \<open>update\<close> in
  the examples: the five variants by the names the comments of \<^verbatim>\<open>update\<close> use.
\<close>

definition example_model_type_lu :: "string \<rightharpoonup> int" where
  "example_model_type_lu =
     [''lif'' \<mapsto> 1, ''lif_r'' \<mapsto> 2, ''lif_asc'' \<mapsto> 3, ''lif_r_asc'' \<mapsto> 4,
      ''lif_r_asc_a'' \<mapsto> 5]"

text \<open>
  \<^verbatim>\<open>init_buffers_\<close>: the vector of the spike buffers is emptied (\<open>calibrate\<close> sizes it
  again) and the buffer of the currents is sized to the horizon and cleared. The data logger
  is not modelled.
\<close>

definition init_buffers :: "nat \<Rightarrow> glif_psc \<Rightarrow> glif_psc" where
  "init_buffers horizon node =
     node\<lparr>node_B := (node_B node)\<lparr>B_spikes := [], B_currents := replicate horizon 0\<rparr>\<rparr>"

subsection \<open>The crossing time that the specification describes\<close>

text \<open>
  Section 4.4 of the specification lets the potential and the threshold each move on a
  straight line over the step, from the pair before the step to the pair after it, and asks
  for the offset within the step at which the two lines meet. Measured from the start of a
  step of length \<open>dt\<close>, the lines \<open>v_old + (U - v_old) * t / dt\<close> and
  \<open>th_old + (threshold - th_old) * t / dt\<close> meet at:
\<close>

definition analytic_crossing_time :: "real \<Rightarrow> real \<Rightarrow> real \<Rightarrow> real \<Rightarrow> real \<Rightarrow> real" where
  "analytic_crossing_time v_old th_old U threshold dt =
     dt * (th_old - v_old) / ((U - v_old) - (threshold - th_old))"

subsection \<open>Parts of a node\<close>

text \<open>
  What the loop over the alpha-shaped currents (lines 528 to 537) reads and writes, and
  what the rest of a step reads and writes: the theorems on \<open>update_step\<close> say which code
  leaves which part alone.
\<close>

definition synaptic_part ::
  "glif_psc \<Rightarrow> Parameters \<times> real list \<times> real list \<times> real list \<times> real list \<times> real list
     \<times> real list \<times> RingBuffer list" where
  "synaptic_part node =
     (node_P node, V_P11 (node_V node), V_P21 (node_V node), V_P22 (node_V node),
      V_PSCInitialValues (node_V node), S_y1 (node_S node), S_y2 (node_S node),
      B_spikes (node_B node))"

definition membrane_part ::
  "glif_psc \<Rightarrow> Parameters \<times> Variables \<times> real \<times> real list \<times> real \<times> real \<times> real
     \<times> (nat \<times> real) list \<times> (nat \<times> real) list \<times> (real \<times> real) list" where
  "membrane_part node =
     (node_P node, node_V node, S_U (node_S node), S_ASCurrents (node_S node),
      S_ASCurrents_sum (node_S node), S_threshold (node_S node), S_I_syn (node_S node),
      node_spiketimes node, node_sent node, node_printed node)"

text \<open>A statement keeps a part \<open>g\<close> of its object when it ends, normally or not, with
  that part as it was.\<close>

definition keeps :: "('s \<Rightarrow> 'b) \<Rightarrow> ('s, 'a) stmt \<Rightarrow> bool" where
  "keeps g m \<longleftrightarrow> (\<forall>s r s'. m s = (r, s') \<longrightarrow> g s' = g s)"

text \<open>
  The node of the examples: the default node, its buffers initialised for a horizon of 5
  steps, calibrated for a step of 1 ms. The functions \<^verbatim>\<open>propagator_31\<close> and
  \<^verbatim>\<open>propagator_32\<close> are not among the sources; the examples take them to be zero.
\<close>

definition example_node :: glif_psc where
  "example_node =
     calibrate 1 5 (\<lambda>_ _ _ _. 0) (\<lambda>_ _ _ _. 0) (init_buffers 5 glif_psc_default)"

subsection \<open>The count-down of the refractory time\<close>

text \<open>
  The remaining refractory time after \<open>k\<close> steps of length \<open>dt\<close> in the refractory
  period: the subtraction of line 409, \<open>k\<close> times.
\<close>

primrec countdown :: "real \<Rightarrow> nat \<Rightarrow> real \<Rightarrow> real" where
  "countdown dt 0 t = t"
| "countdown dt (Suc k) t = round_double (countdown dt k t - dt)"


section \<open>Parameters: what \<open>Parameters_set\<close> computes\<close>

lemma updateValue_double:
  assumes "readable getValue_double d n" and "\<And>s. store (field s) s = s"
  shows "updateValue getValue_double d n store s =
     (Inr (d n \<noteq> None), store (entry_double d n (field s)) s)"
  using assms
  by (auto simp: readable_def updateValue_def getValue_double_def entry_double_def
      split: option.splits Datum.splits)

lemma updateValue_vector:
  assumes "readable getValue_vector d n" and "\<And>s. store (field s) s = s"
  shows "updateValue getValue_vector d n store s =
     (Inr (d n \<noteq> None), store (entry_vector d n (field s)) s)"
  using assms
  by (auto simp: readable_def updateValue_def getValue_vector_def entry_vector_def
      split: option.splits Datum.splits)

lemma updateValue_string:
  assumes "readable getValue_string d n" and "\<And>s. store (field s) s = s"
  shows "updateValue getValue_string d n store s =
     (Inr (d n \<noteq> None), store (entry_string d n (field s)) s)"
  using assms
  by (auto simp: readable_def updateValue_def getValue_string_def entry_string_def
      split: option.splits Datum.splits)

lemma then_stmt_apply:
  "then_stmt m f s = (case m s of (Inl e, s') \<Rightarrow> (Inl e, s') | (Inr a, s') \<Rightarrow> f a s')"
  by (simp add: then_stmt_def)

lemma throw_if_apply: "throw_if c e s = (if c s then (Inl e, s) else (Inr (), s))"
  by (simp add: throw_if_def)

lemma case_result_if:
  "(case (if c then (Inl e, s) else (Inr (), s)) of
      (Inl e', s') \<Rightarrow> (Inl e', s') | (Inr a, s') \<Rightarrow> f a s')
   = (if c then (Inl e, s) else f () s)"
  by simp

lemma if_update_V_reset:
  "(if c then p\<lparr>P_V_reset := a\<rparr> else p\<lparr>P_V_reset := b\<rparr>) = p\<lparr>P_V_reset := if c then a else b\<rparr>"
  by simp

lemma if_update_th_inf:
  "(if c then p\<lparr>P_th_inf := a\<rparr> else p\<lparr>P_th_inf := b\<rparr>) = p\<lparr>P_th_inf := if c then a else b\<rparr>"
  by simp

lemma entry_vector_idem:
  "entry_vector d n (entry_vector d n cur) = entry_vector d n cur"
  by (simp add: entry_vector_def split: option.splits Datum.splits)

lemma case_prod_if:
  "case_prod h (if c then x else y) = (if c then case_prod h x else case_prod h y)"
  by simp

lemma update_order:
  "p\<lparr>P_glif_model := a, P_tau_syn := b\<rparr> = p\<lparr>P_tau_syn := b, P_glif_model := a\<rparr>"
  by simp

lemma if_apply: "(if c then f else g) x = (if c then f x else g x)"
  by simp

text \<open>
  On a dictionary whose entries have the types they are read at, \<open>Parameters_set\<close> makes
  all the assignments and then runs the checks. The check of the number of receptor ports
  is not among them: line 224 reads the number of ports after line 180 has already stored
  the new time constants, so that the comparison of line 227 is between equal numbers.
\<close>

lemma Parameters_set_well_typed:
  assumes "well_typed d"
  shows "Parameters_set d p =
     validate (d names_tau_syn \<noteq> None) (entry_double d names_E_L (P_E_L p) - P_E_L p)
       (Parameters_updated d p)"
proof -
  note rd = assms [unfolded well_typed_def]
  note upd =
    updateValue_double [where field = P_E_L and n = names_E_L]
    updateValue_double [where field = P_V_reset and n = names_V_reset]
    updateValue_double [where field = P_th_inf and n = names_V_th]
    updateValue_double [where field = P_G and n = names_g]
    updateValue_double [where field = P_C_m and n = names_C_m]
    updateValue_double [where field = P_t_ref and n = names_t_ref]
    updateValue_double [where field = P_a_spike and n = names_a_spike]
    updateValue_double [where field = P_b_spike and n = names_b_spike]
    updateValue_double [where field = P_voltage_reset_a and n = names_a_reset]
    updateValue_double [where field = P_voltage_reset_b and n = names_b_reset]
    updateValue_double [where field = P_a_voltage and n = names_a_voltage]
    updateValue_double [where field = P_b_voltage and n = names_b_voltage]
    updateValue_vector [where field = P_asc_init and n = names_asc_init]
    updateValue_vector [where field = P_k and n = names_k]
    updateValue_vector [where field = P_asc_amps and n = names_asc_amps]
    updateValue_vector [where field = P_r and n = names_r]
    updateValue_vector [where field = P_tau_syn and n = names_tau_syn]
    updateValue_string [where field = P_glif_model and n = names_glif_model]
  show ?thesis
    using rd
    by (simp add: Parameters_set_def upd then_stmt_apply throw_if_apply case_result_if
        read_member_def assign_def return_stmt_def if_update_V_reset if_update_th_inf
        if_apply case_prod_if update_order entry_vector_idem
        n_receptors_def validate_def Parameters_updated_def
        split del: if_split cong: if_cong)
qed

lemma then_stmtE:
  assumes "fst (then_stmt m f s) = Inr x"
  obtains a s' where "m s = (Inr a, s')" and "fst (f a s') = Inr x"
  using assms by (auto simp: then_stmt_def split: prod.splits sum.splits)

lemma updateValue_readable:
  "updateValue getValue d n store s = (Inr b, s') \<Longrightarrow> readable getValue d n"
  by (auto simp: updateValue_def readable_def split: option.splits sum.splits)

lemma Parameters_set_accepts_well_typed:
  assumes "fst (Parameters_set d p) = Inr delta"
  shows "well_typed d"
  using assms unfolding Parameters_set_def well_typed_def
  by (elim then_stmtE) (simp add: updateValue_readable)

lemma validate_accepts:
  "validate given delta p = (Inr delta', p') \<Longrightarrow> p' = p \<and> delta' = delta"
  by (simp add: validate_def split: if_splits)

lemma validate_state: "snd (validate given delta p) = p"
  by (simp add: validate_def)

lemma Parameters_set_accepts:
  assumes "Parameters_set d p = (Inr delta, p')"
  shows "well_typed d" and "p' = Parameters_updated d p"
    and "delta = entry_double d names_E_L (P_E_L p) - P_E_L p"
    and "validate (d names_tau_syn \<noteq> None) delta p' = (Inr delta, p')"
proof -
  from assms have "fst (Parameters_set d p) = Inr delta" by simp
  then show wt: "well_typed d" by (rule Parameters_set_accepts_well_typed)
  from Parameters_set_well_typed [OF wt, of p] assms
  have v: "validate (d names_tau_syn \<noteq> None) (entry_double d names_E_L (P_E_L p) - P_E_L p)
       (Parameters_updated d p) = (Inr delta, p')" by simp
  from validate_accepts [OF v] show "p' = Parameters_updated d p"
    and "delta = entry_double d names_E_L (P_E_L p) - P_E_L p" by simp_all
  with v show "validate (d names_tau_syn \<noteq> None) delta p' = (Inr delta, p')" by simp
qed

lemma then_updateValue_InlE:
  assumes "fst (then_stmt (updateValue getValue d n store) f s) = Inl e"
    and "\<And>t e'. getValue t = Inl e' \<Longrightarrow> e' = TypeMismatch"
  obtains (mismatch) "e = TypeMismatch"
  | (stored) b s' where "readable getValue d n" and "fst (f b s') = Inl e"
  using assms
  by (fastforce simp: then_stmt_def updateValue_def readable_def
      split: prod.splits sum.splits option.splits)

lemma getValue_throws:
  "getValue_double t = Inl e \<Longrightarrow> e = TypeMismatch"
  "getValue_vector t = Inl e \<Longrightarrow> e = TypeMismatch"
  "getValue_string t = Inl e \<Longrightarrow> e = TypeMismatch"
  by (auto simp: getValue_double_def getValue_vector_def getValue_string_def split: Datum.splits)

lemmas then_updateValue_InlEs =
  then_updateValue_InlE [where getValue = getValue_double, OF _ getValue_throws(1)]
  then_updateValue_InlE [where getValue = getValue_vector, OF _ getValue_throws(2)]
  then_updateValue_InlE [where getValue = getValue_string, OF _ getValue_throws(3)]

lemma then_read_member_InlE:
  assumes "fst (then_stmt (read_member g) f s) = Inl e"
  obtains "fst (f (g s) s) = Inl e"
  using assms by (simp add: then_stmt_def read_member_def)

lemma then_assign_InlE:
  assumes "fst (then_stmt (assign h) f s) = Inl e"
  obtains "fst (f () (h s)) = Inl e"
  using assms by (simp add: then_stmt_def assign_def)

lemma Parameters_set_ill_typed_error:
  assumes "fst (Parameters_set d p) = Inl e" and "\<not> well_typed d"
  shows "e = TypeMismatch"
  using assms unfolding Parameters_set_def
  apply (elim then_updateValue_InlEs then_read_member_InlE then_assign_InlE)
  apply (simp_all add: well_typed_def)
  done

lemma Parameters_set_ill_typed:
  assumes "\<not> well_typed d"
  shows "fst (Parameters_set d p) = Inl TypeMismatch"
proof (cases "fst (Parameters_set d p)")
  case (Inl e)
  with assms Parameters_set_ill_typed_error show ?thesis by simp
next
  case (Inr delta)
  with assms Parameters_set_accepts_well_typed show ?thesis by blast
qed

text \<open>The message of line 229 is never thrown.\<close>

lemma Parameters_set_never_frozen:
  "fst (Parameters_set d p) \<noteq> Inl (BadProperty
     ''The neuron has connections, therefore the number of ports cannot be reduced.'')"
proof (cases "well_typed d")
  case True
  then show ?thesis
    by (simp add: Parameters_set_well_typed validate_def)
next
  case False
  then show ?thesis by (simp add: Parameters_set_ill_typed)
qed


lemma get_entry_double:
  "readable getValue_double d n \<Longrightarrow>
   (case d n of None \<Rightarrow> Some (DoubleDatum cur) | Some v \<Rightarrow> Some v)
   = Some (DoubleDatum (entry_double d n cur))"
  by (auto simp: readable_def getValue_double_def entry_double_def split: option.splits Datum.splits)

lemma get_entry_vector:
  "readable getValue_vector d n \<Longrightarrow>
   (case d n of None \<Rightarrow> Some (DoubleVectorDatum cur) | Some v \<Rightarrow> Some v)
   = Some (DoubleVectorDatum (entry_vector d n cur))"
  by (auto simp: readable_def getValue_vector_def entry_vector_def split: option.splits Datum.splits)

lemma get_entry_string:
  "readable getValue_string d n \<Longrightarrow>
   (case d n of None \<Rightarrow> Some (StringDatum cur) | Some v \<Rightarrow> Some v)
   = Some (StringDatum (entry_string d n cur))"
  by (auto simp: readable_def getValue_string_def entry_string_def split: option.splits Datum.splits)

lemma rebased_entry:
  "readable getValue_double d n \<Longrightarrow>
   (if \<exists>y. d n = Some y then entry_double d n cur - E' else entry_double d n cur - (E' - E)) + E'
   = entry_double d n (cur + E)"
  by (auto simp: readable_def getValue_double_def entry_double_def split: option.splits Datum.splits)

lemma Parameters_get_updated:
  assumes "well_typed d"
  shows "\<forall>n\<in>set parameter_names.
     Parameters_get (Parameters_updated d p) g n =
       (if n = names_has_connections then Parameters_get p g n
        else case d n of Some v \<Rightarrow> Some v | None \<Rightarrow> Parameters_get p g n)"
  using assms unfolding well_typed_def
  by (simp add: parameter_names_def Parameters_get_def Parameters_updated_def
      get_entry_double get_entry_vector get_entry_string rebased_entry
      split del: if_split cong: option.case_cong)

lemma well_typed_get: "well_typed (Parameters_get p g)"
  by (simp add: well_typed_def readable_def Parameters_get_def getValue_double_def
      getValue_vector_def getValue_string_def)

lemma Parameters_updated_get: "Parameters_updated (Parameters_get p g) p = p"
  by (simp add: Parameters_updated_def Parameters_get_def entry_double_def entry_vector_def
      entry_string_def)

lemma well_typed_empty: "well_typed Map.empty"
  by (simp add: well_typed_def readable_def)

lemma Parameters_updated_empty: "Parameters_updated Map.empty p = p"
  by (simp add: Parameters_updated_def entry_double_def entry_vector_def entry_string_def)


section \<open>The claims on the parameters\<close>

text \<open>
  Claim C6, as amended. For every dictionary that \<open>Parameters_set\<close> accepts, a following
  \<open>Parameters_get\<close> returns, under every name it defines but \<^verbatim>\<open>has_connections\<close>, the
  entry of the update when the update has one and what it returned before otherwise; the
  reset potential and the threshold are exposed as absolute potentials, so that they keep
  their values when only the resting potential changes. The flag \<^verbatim>\<open>has_connections\<close> is
  never read by \<open>Parameters_set\<close> and reads back as before. The value returned is the
  change of the resting potential. A round trip through \<open>Parameters_get\<close>, or an empty
  update, changes no parameter and returns zero.
\<close>

theorem Parameters_get_after_set:
  assumes "Parameters_set d p = (Inr delta, p')"
  shows "(\<forall>n\<in>set parameter_names.
            Parameters_get p' g n =
              (if n = names_has_connections then Parameters_get p g n
               else case d n of Some v \<Rightarrow> Some v | None \<Rightarrow> Parameters_get p g n))
         \<and> delta = P_E_L p' - P_E_L p
         \<and> (d = Parameters_get p g \<or> d = Map.empty \<longrightarrow> p' = p \<and> delta = 0)"
proof -
  note acc = Parameters_set_accepts [OF assms]
  have "\<forall>n\<in>set parameter_names.
            Parameters_get p' g n =
              (if n = names_has_connections then Parameters_get p g n
               else case d n of Some v \<Rightarrow> Some v | None \<Rightarrow> Parameters_get p g n)"
    using Parameters_get_updated [OF acc(1), of p g] acc(2) by simp
  moreover have delta: "delta = P_E_L p' - P_E_L p"
    using acc(2,3) by (simp add: Parameters_updated_def)
  moreover have "p' = p \<and> delta = 0" if "d = Parameters_get p g \<or> d = Map.empty"
  proof -
    from that acc(2) have "p' = p"
      by (auto simp: Parameters_updated_get Parameters_updated_empty)
    with \<open>delta = P_E_L p' - P_E_L p\<close> show ?thesis by simp
  qed
  ultimately show ?thesis by blast
qed


theorem Parameters_get_after_set_witness:
  "Parameters_set [names_g \<mapsto> DoubleDatum 10, names_E_L \<mapsto> DoubleDatum (- 70)] Parameters_default
     = (Inr (885 / 100),
        Parameters_default\<lparr>P_E_L := - 70, P_V_reset := - 885 / 100, P_th_inf := 1832 / 100,
          P_G := 10\<rparr>)
   \<and> Parameters_get
        (Parameters_default\<lparr>P_E_L := - 70, P_V_reset := - 885 / 100, P_th_inf := 1832 / 100,
          P_G := 10\<rparr>) Map.empty names_g = Some (DoubleDatum 10)
   \<and> Parameters_get
        (Parameters_default\<lparr>P_E_L := - 70, P_V_reset := - 885 / 100, P_th_inf := 1832 / 100,
          P_G := 10\<rparr>) Map.empty names_V_th
      = Parameters_get Parameters_default Map.empty names_V_th
   \<and> Parameters_set Map.empty Parameters_default = (Inr 0, Parameters_default)"
proof -
  let ?d = "[names_g \<mapsto> DoubleDatum 10, names_E_L \<mapsto> DoubleDatum (- 70)]"
  let ?p' = "Parameters_default\<lparr>P_E_L := - 70, P_V_reset := - 885 / 100,
     P_th_inf := 1832 / 100, P_G := 10\<rparr>"
  have wt: "well_typed ?d"
    by (simp add: well_typed_def readable_def getValue_double_def)
  have run: "Parameters_set ?d Parameters_default = (Inr (885 / 100), ?p')"
    by (simp add: Parameters_set_well_typed [OF wt] validate_def Parameters_updated_def
        entry_double_def entry_vector_def entry_string_def Parameters_default_def)
  have run0: "Parameters_set Map.empty Parameters_default = (Inr 0, Parameters_default)"
    by (simp add: Parameters_set_well_typed [OF well_typed_empty] validate_def
        Parameters_updated_empty entry_double_def Parameters_default_def)
  from Parameters_get_after_set [OF run, of Map.empty]
  have "\<forall>n\<in>set parameter_names.
          Parameters_get ?p' Map.empty n =
            (if n = names_has_connections then Parameters_get Parameters_default Map.empty n
             else case ?d n of Some v \<Rightarrow> Some v
                  | None \<Rightarrow> Parameters_get Parameters_default Map.empty n)"
    by blast
  then have "Parameters_get ?p' Map.empty names_g = Some (DoubleDatum 10)"
    and "Parameters_get ?p' Map.empty names_V_th
         = Parameters_get Parameters_default Map.empty names_V_th"
    by (simp_all add: parameter_names_def)
  with run run0 show ?thesis by simp
qed

text \<open>
  Claim C6 as stated fails for the name \<^verbatim>\<open>has_connections\<close>: the update below holds the
  entry true under that name and is accepted, and \<open>Parameters_get\<close> still returns false.
\<close>

theorem has_connections_not_updated:
  "Parameters_set [names_has_connections \<mapsto> BoolDatum True] Parameters_default
     = (Inr 0, Parameters_default)
   \<and> [names_has_connections \<mapsto> BoolDatum True] names_has_connections = Some (BoolDatum True)
   \<and> Parameters_get Parameters_default Map.empty names_has_connections
       = Some (BoolDatum False)"
proof -
  have wt: "well_typed [names_has_connections \<mapsto> BoolDatum True]"
    by (simp add: well_typed_def readable_def)
  show ?thesis
    by (simp add: Parameters_set_well_typed [OF wt] validate_def Parameters_updated_def
        entry_double_def entry_vector_def entry_string_def Parameters_default_def
        Parameters_get_def)
qed


text \<open>
  \<open>set_status\<close> works on copies: when it fails, the node is as it was. On a dictionary
  whose entries have the right types, \<open>Parameters_set\<close> fails exactly when a check on the
  values after the assignments fails.
\<close>

lemma set_status_atomic:
  assumes "fst (set_status Archiving_Node_set_status d node) = Inl e"
  shows "set_status Archiving_Node_set_status d node = (Inl e, node)"
  using assms
  by (auto simp: set_status_def split: prod.splits sum.splits)

lemma set_status_rejects:
  assumes "fst (Parameters_set d (node_P node)) = Inl e"
  shows "set_status Archiving_Node_set_status d node = (Inl e, node)"
  using assms
  by (auto simp: set_status_def split: prod.splits sum.splits)

lemma Parameters_set_rejects_iff:
  assumes "well_typed d"
  shows "(\<exists>e. fst (Parameters_set d p) = Inl e) \<longleftrightarrow>
     (let q = Parameters_updated d p in
        P_th_inf q \<le> P_V_reset q \<or> P_C_m q \<le> 0 \<or> P_G q \<le> 0 \<or> P_t_ref q \<le> 0
        \<or> P_b_voltage q \<le> 0 \<or> P_b_spike q \<le> 0 \<or> some_not_positive (P_k q)
        \<or> (d names_tau_syn \<noteq> None \<and> some_not_positive (P_tau_syn q)))"
  by (simp add: Parameters_set_well_typed [OF assms] validate_def Let_def)

lemma well_typed_tau_syn: "well_typed [names_tau_syn \<mapsto> DoubleVectorDatum xs]"
  by (simp add: well_typed_def readable_def getValue_vector_def)

lemma Parameters_set_tau_syn_default:
  "Parameters_set [names_tau_syn \<mapsto> DoubleVectorDatum [2, 3]] Parameters_default
   = (Inr 0, Parameters_default\<lparr>P_tau_syn := [2, 3]\<rparr>)"
  by (simp add: Parameters_set_well_typed well_typed_tau_syn validate_def Parameters_updated_def
      entry_double_def entry_vector_def entry_string_def Parameters_default_def)

text \<open>
  Claim C2: once a receptor port has a connection, every \<open>Parameters_set\<close> that would change
  the number of receptor ports fails. The code does not do this. The parameters below have
  two receptor ports and the flag \<^verbatim>\<open>has_connections_\<close> set; the update that leaves one
  synaptic time constant is accepted, and the node is left with one receptor port.
\<close>

theorem receptor_ports_not_frozen:
  "P_has_connections (Parameters_default\<lparr>P_tau_syn := [2, 3], P_has_connections := True\<rparr>)
   \<and> n_receptors (Parameters_default\<lparr>P_tau_syn := [2, 3], P_has_connections := True\<rparr>) = 2
   \<and> Parameters_set [names_tau_syn \<mapsto> DoubleVectorDatum [2]]
       (Parameters_default\<lparr>P_tau_syn := [2, 3], P_has_connections := True\<rparr>)
     = (Inr 0, Parameters_default\<lparr>P_tau_syn := [2], P_has_connections := True\<rparr>)
   \<and> n_receptors (Parameters_default\<lparr>P_tau_syn := [2], P_has_connections := True\<rparr>) = 1"
  by (simp add: Parameters_set_well_typed well_typed_tau_syn validate_def Parameters_updated_def
      entry_double_def entry_vector_def entry_string_def Parameters_default_def n_receptors_def)

lemma State_set_no_entries:
  "d names_V_m = None \<Longrightarrow> d names_ASCurrents = None \<Longrightarrow>
   State_set d p 0 s = (Inr (), s)"
  by (simp add: State_set_def then_stmt_def updateValue_def assign_def return_stmt_def)

text \<open>
  Claim C1: an update in which a validation check fails, among them the change of the number
  of receptor ports of a node with connections, fails and changes nothing. For that last
  check the code does not do this. The node below gets two receptor ports, then a connection
  to the port 2; the \<open>set_status\<close> that leaves one synaptic time constant succeeds, and
  \<open>get_status\<close> shows the new time constants.
\<close>

theorem set_status_port_count_reduction:
  "set_status (\<lambda>_. Inr ()) [names_tau_syn \<mapsto> DoubleVectorDatum [2, 3]] glif_psc_default
     = (Inr (), glif_psc_default\<lparr>node_P := Parameters_default\<lparr>P_tau_syn := [2, 3]\<rparr>\<rparr>)
   \<and> handles_test_event 2
       (glif_psc_default\<lparr>node_P := Parameters_default\<lparr>P_tau_syn := [2, 3]\<rparr>\<rparr>)
     = (Inr 2, glif_psc_default\<lparr>node_P :=
          Parameters_default\<lparr>P_tau_syn := [2, 3], P_has_connections := True\<rparr>\<rparr>)
   \<and> set_status (\<lambda>_. Inr ()) [names_tau_syn \<mapsto> DoubleVectorDatum [2]]
       (glif_psc_default\<lparr>node_P :=
          Parameters_default\<lparr>P_tau_syn := [2, 3], P_has_connections := True\<rparr>\<rparr>)
     = (Inr (), glif_psc_default\<lparr>node_P :=
          Parameters_default\<lparr>P_tau_syn := [2], P_has_connections := True\<rparr>\<rparr>)
   \<and> get_status (glif_psc_default\<lparr>node_P :=
          Parameters_default\<lparr>P_tau_syn := [2], P_has_connections := True\<rparr>\<rparr>) Map.empty
        names_tau_syn = Some (DoubleVectorDatum [2])"
proof -
  have a: "Parameters_set [names_tau_syn \<mapsto> DoubleVectorDatum [2]]
       (Parameters_default\<lparr>P_tau_syn := [2, 3], P_has_connections := True\<rparr>)
     = (Inr 0, Parameters_default\<lparr>P_tau_syn := [2], P_has_connections := True\<rparr>)"
    by (simp add: Parameters_set_well_typed well_typed_tau_syn validate_def
        Parameters_updated_def entry_double_def entry_vector_def entry_string_def
        Parameters_default_def)
  show ?thesis
    by (simp add: set_status_def a Parameters_set_tau_syn_default State_set_no_entries
        handles_test_event_def n_receptors_def get_status_def State_get_def Parameters_get_def
        glif_psc_default_def)
qed

lemma tolower_Bogus: "map tolower ''Bogus'' = ''bogus''"
  by code_simp

lemma validate_glif_model:
  "fst (validate given delta (p\<lparr>P_glif_model := s\<rparr>)) = fst (validate given delta p)"
  by (simp add: validate_def)

lemma well_typed_glif_model:
  "well_typed (d(names_glif_model \<mapsto> StringDatum s))
   \<longleftrightarrow> well_typed (d(names_glif_model \<mapsto> StringDatum s'))"
  by (simp add: well_typed_def readable_def getValue_string_def)

lemma Parameters_updated_glif_model:
  "Parameters_updated (d(names_glif_model \<mapsto> StringDatum s)) p
   = (Parameters_updated (d(names_glif_model := None)) p)\<lparr>P_glif_model := s\<rparr>"
  by (simp add: Parameters_updated_def entry_double_def entry_vector_def entry_string_def)

text \<open>
  Claim C10: \<open>Parameters_set\<close> does not look at the string stored under \<^verbatim>\<open>glif_model\<close>:
  whether it succeeds, and with which error it fails, is the same for every string, and on
  success the string is stored as it is. A string whose lower-case form is not in the table
  of model types makes \<open>update\<close> throw \<^verbatim>\<open>BadProperty\<close> with the node unchanged, for every
  range of steps.
\<close>

theorem glif_model_checked_by_update:
  "fst (Parameters_set (d(names_glif_model \<mapsto> StringDatum s)) p)
     = fst (Parameters_set (d(names_glif_model \<mapsto> StringDatum s')) p)
   \<and> (Parameters_set (d(names_glif_model \<mapsto> StringDatum s)) p = (Inr delta, p')
        \<longrightarrow> P_glif_model p' = s)
   \<and> (model_type_lu (map tolower (P_glif_model (node_P node))) = None
        \<longrightarrow> update model_type_lu dt origin lo hi node
            = (Inl (BadProperty ''Bad glif model type string.''), node))"
proof -
  let ?d = "\<lambda>s. d(names_glif_model \<mapsto> StringDatum s)"
  have "fst (Parameters_set (?d s) p) = fst (Parameters_set (?d s') p)"
  proof (cases "well_typed (?d s)")
    case True
    then have "well_typed (?d s')" using well_typed_glif_model by blast
    with True show ?thesis
      by (simp add: Parameters_set_well_typed Parameters_updated_glif_model
          validate_glif_model entry_double_def)
  next
    case False
    then have "\<not> well_typed (?d s')" using well_typed_glif_model by blast
    with False show ?thesis by (simp add: Parameters_set_ill_typed)
  qed
  moreover have "P_glif_model p' = s" if "Parameters_set (?d s) p = (Inr delta, p')"
    using Parameters_set_accepts(2) [OF that]
    by (simp add: Parameters_updated_def entry_string_def)
  moreover have "update model_type_lu dt origin lo hi node
            = (Inl (BadProperty ''Bad glif model type string.''), node)"
    if "model_type_lu (map tolower (P_glif_model (node_P node))) = None"
    using that by (simp add: update_def)
  ultimately show ?thesis by blast
qed

theorem glif_model_checked_by_update_witness:
  "Parameters_set [names_glif_model \<mapsto> StringDatum ''Bogus''] Parameters_default
     = (Inr 0, Parameters_default\<lparr>P_glif_model := ''Bogus''\<rparr>)
   \<and> example_model_type_lu (map tolower ''Bogus'') = None
   \<and> update example_model_type_lu 1 0 0 10
       (glif_psc_default\<lparr>node_P := Parameters_default\<lparr>P_glif_model := ''Bogus''\<rparr>\<rparr>)
     = (Inl (BadProperty ''Bad glif model type string.''),
        glif_psc_default\<lparr>node_P := Parameters_default\<lparr>P_glif_model := ''Bogus''\<rparr>\<rparr>)"
proof -
  have wt: "well_typed [names_glif_model \<mapsto> StringDatum ''Bogus'']"
    by (simp add: well_typed_def readable_def getValue_string_def)
  have run: "Parameters_set [names_glif_model \<mapsto> StringDatum ''Bogus''] Parameters_default
     = (Inr 0, Parameters_default\<lparr>P_glif_model := ''Bogus''\<rparr>)"
    by (simp add: Parameters_set_well_typed [OF wt] validate_def Parameters_updated_def
        entry_double_def entry_vector_def entry_string_def Parameters_default_def)
  have lu: "example_model_type_lu (map tolower ''Bogus'') = None"
    unfolding tolower_Bogus by (simp add: example_model_type_lu_def)
  from glif_model_checked_by_update [where model_type_lu = example_model_type_lu
      and node = "glif_psc_default\<lparr>node_P := Parameters_default\<lparr>P_glif_model := ''Bogus''\<rparr>\<rparr>"
      and d = Map.empty and s = "''Bogus''" and p = Parameters_default and s' = "''Bogus''"
      and delta = 0 and p' = "Parameters_default\<lparr>P_glif_model := ''Bogus''\<rparr>"
      and dt = 1 and origin = 0 and lo = 0 and hi = 10] lu
  have "update example_model_type_lu 1 0 0 10
       (glif_psc_default\<lparr>node_P := Parameters_default\<lparr>P_glif_model := ''Bogus''\<rparr>\<rparr>)
     = (Inl (BadProperty ''Bad glif model type string.''),
        glif_psc_default\<lparr>node_P := Parameters_default\<lparr>P_glif_model := ''Bogus''\<rparr>\<rparr>)"
    by simp
  with run lu show ?thesis by simp
qed


section \<open>The claims on the calibration\<close>

lemma calibrate_receptor_P33:
  "V_P33 (node_V (fold (calibrate_receptor h horizon p31 p32 Tau) idx node)) = V_P33 (node_V node)"
  by (induction idx arbitrary: node) (simp_all add: calibrate_receptor_def Let_def)

text \<open>
  Claim C5: for a positive capacitance, a positive conductance and a positive step size
  \<open>h\<close>, the coefficient \<^verbatim>\<open>P33_\<close> that \<open>calibrate\<close> computes is \<open>exp (- h / (C_m / G))\<close>; it
  lies strictly between 0 and 1.
\<close>

theorem calibrate_P33:
  assumes "0 < P_C_m (node_P node)" and "0 < P_G (node_P node)" and "0 < h"
  shows "V_P33 (node_V (calibrate h horizon propagator_31 propagator_32 node))
           = exp (- h / (P_C_m (node_P node) / P_G (node_P node)))
         \<and> 0 < V_P33 (node_V (calibrate h horizon propagator_31 propagator_32 node))
         \<and> V_P33 (node_V (calibrate h horizon propagator_31 propagator_32 node)) < 1"
proof -
  have eq: "V_P33 (node_V (calibrate h horizon propagator_31 propagator_32 node))
           = exp (- h / (P_C_m (node_P node) / P_G (node_P node)))"
    by (simp add: calibrate_def Let_def calibrate_receptor_P33)
  from assms have "0 < h / (P_C_m (node_P node) / P_G (node_P node))" by simp
  then have "exp (- h / (P_C_m (node_P node) / P_G (node_P node))) < 1" by simp
  with eq show ?thesis by simp
qed

theorem calibrate_P33_witness:
  "0 < P_C_m (node_P glif_psc_default) \<and> 0 < P_G (node_P glif_psc_default) \<and> (0::real) < 1 / 10
   \<and> V_P33 (node_V (calibrate (1 / 10) 20 (\<lambda>_ _ _ _. 0) (\<lambda>_ _ _ _. 0) glif_psc_default))
       = exp (- (1 / 10) / (P_C_m (node_P glif_psc_default) / P_G (node_P glif_psc_default)))"
proof -
  have a: "0 < P_C_m (node_P glif_psc_default)" and b: "0 < P_G (node_P glif_psc_default)"
    by (simp_all add: glif_psc_default_def Parameters_default_def)
  have c: "(0::real) < 1 / 10" by simp
  from calibrate_P33 [OF a b c] a b c show ?thesis by blast
qed


section \<open>The claims on the update\<close>

subsection \<open>The spike offset\<close>

lemma crossing_time_meets:
  assumes "(U - v_old) - (threshold - th_old) \<noteq> 0" and "dt \<noteq> 0"
  shows "v_old + (U - v_old) * t / dt = th_old + (threshold - th_old) * t / dt
         \<longleftrightarrow> t = analytic_crossing_time v_old th_old U threshold dt"
proof -
  let ?D = "(U - v_old) - (threshold - th_old)"
  have "v_old + (U - v_old) * t / dt = th_old + (threshold - th_old) * t / dt
        \<longleftrightarrow> ?D * t = (th_old - v_old) * dt"
    using assms(2) by (simp add: field_simps)
  also have "\<dots> \<longleftrightarrow> t = dt * (th_old - v_old) / ?D"
    using assms(1) by (simp add: field_simps)
  finally show ?thesis by (simp add: analytic_crossing_time_def)
qed

text \<open>
  Claim C3, as amended. Where the two lines are not parallel, the spike offset that the
  update computes is the length of the step minus the time from the start of the step at
  which the two lines meet: the lines meet exactly at \<open>dt\<close> minus the offset. For the
  potential going from 9 to 12 and the threshold from 10 to 10.5 over a step of 1 ms the
  lines meet 0.4 ms after the start of the step, and the offset, which \<^verbatim>\<open>set_spiketime\<close>
  takes together with the time stamp of the end of the step, is 0.6 ms: neither the end of
  the step nor its start.
\<close>

theorem spike_offset_from_step_end:
  assumes "(threshold - th_old) - (U - v_old) \<noteq> 0" and "dt \<noteq> 0"
  shows "spike_offset v_old th_old U threshold dt
           = dt - analytic_crossing_time v_old th_old U threshold dt
         \<and> (v_old + (U - v_old) * t / dt = th_old + (threshold - th_old) * t / dt
              \<longleftrightarrow> t = dt - spike_offset v_old th_old U threshold dt)
         \<and> spike_offset 9 10 12 (21 / 2) 1 = 3 / 5
         \<and> analytic_crossing_time 9 10 12 (21 / 2) 1 = 2 / 5"
proof -
  from assms(1) have D: "(U - v_old) - (threshold - th_old) \<noteq> 0" by simp
  have a: "spike_offset v_old th_old U threshold dt
           = dt - analytic_crossing_time v_old th_old U threshold dt"
    using assms(1) D
    by (simp add: spike_offset_def analytic_crossing_time_def field_simps)
  have b: "spike_offset 9 10 12 (21 / 2) 1 = 3 / 5"
    and c: "analytic_crossing_time 9 10 12 (21 / 2) 1 = 2 / 5"
    by (simp_all add: spike_offset_def analytic_crossing_time_def)
  from a crossing_time_meets [OF D assms(2), of t] b c show ?thesis by simp
qed

theorem spike_offset_from_step_end_witness:
  "(21 / 2 - 10) - (12 - 9) \<noteq> (0::real) \<and> (1::real) \<noteq> 0
   \<and> spike_offset 9 10 12 (21 / 2) 1 = 1 - analytic_crossing_time 9 10 12 (21 / 2) 1
   \<and> 9 + (12 - 9) * (2 / 5) / 1 = (10::real) + (21 / 2 - 10) * (2 / 5) / 1"
proof -
  have h1: "(21 / 2 - 10) - (12 - 9) \<noteq> (0::real)" and h2: "(1::real) \<noteq> 0" by simp_all
  from spike_offset_from_step_end [OF h1 h2, of "2 / 5"] h1 h2 show ?thesis by simp
qed

text \<open>
  Claim C3 as stated fails: for these values the offset computed is 0.6 ms and the lines
  meet 0.4 ms after the start of the step; neither is within 0.05 ms of 0.67 ms, and the
  offset is not the time of the crossing counted from the start of the step.
\<close>

theorem spike_offset_not_two_thirds:
  "spike_offset 9 10 12 (21 / 2) 1 = 3 / 5
   \<and> \<not> \<bar>spike_offset 9 10 12 (21 / 2) 1 - 67 / 100\<bar> \<le> 1 / 20
   \<and> analytic_crossing_time 9 10 12 (21 / 2) 1 = 2 / 5
   \<and> \<not> \<bar>analytic_crossing_time 9 10 12 (21 / 2) 1 - 67 / 100\<bar> \<le> 1 / 20
   \<and> spike_offset 9 10 12 (21 / 2) 1 \<noteq> analytic_crossing_time 9 10 12 (21 / 2) 1"
  by (simp add: spike_offset_def analytic_crossing_time_def)


subsection \<open>Loops\<close>

lemma for_stmt_append:
  "for_stmt (xs @ ys) body s =
     (case for_stmt xs body s of (Inl e, s') \<Rightarrow> (Inl e, s') | (Inr _, s') \<Rightarrow> for_stmt ys body s')"
  by (induction xs arbitrary: s)
     (auto simp: then_stmt_def return_stmt_def split: prod.splits sum.splits)

lemma for_stmt_preserves:
  assumes "for_stmt idx body s = (res, s')"
    and "\<And>j t r t'. j \<in> set idx \<Longrightarrow> body j t = (r, t') \<Longrightarrow> f t' = f t"
  shows "f s' = f s"
  using assms
proof (induction idx arbitrary: s)
  case Nil
  then show ?case by (simp add: return_stmt_def)
next
  case (Cons i idx)
  obtain r t where bi: "body i s = (r, t)" by (cases "body i s")
  have ft: "f t = f s" using Cons.prems(2) [OF _ bi] by simp
  show ?case
  proof (cases r)
    case (Inl e)
    with bi Cons.prems(1) have "s' = t" by (simp add: then_stmt_def)
    with ft show ?thesis by simp
  next
    case (Inr u)
    with bi Cons.prems(1) have "for_stmt idx body t = (res, s')" by (simp add: then_stmt_def)
    have "f s' = f t"
    proof (rule Cons.IH [OF \<open>for_stmt idx body t = (res, s')\<close>])
      fix j t r t'
      assume "j \<in> set idx" and "body j t = (r, t')"
      then show "f t' = f t" using Cons.prems(2) [of j t r t'] by simp
    qed
    with ft show ?thesis by simp
  qed
qed


subsection \<open>The parts of a step\<close>

lemma psc_receptor_membrane:
  "psc_receptor lag j node = (r, node') \<Longrightarrow> membrane_part node' = membrane_part node"
  by (auto simp: psc_receptor_def membrane_part_def Let_def get_value_def
      split: if_splits prod.splits sum.splits)

lemma psc_receptor_other:
  assumes "psc_receptor lag j node = (r, node')" and "j \<noteq> i"
  shows "S_y1 (node_S node') ! i = S_y1 (node_S node) ! i"
    and "S_y2 (node_S node') ! i = S_y2 (node_S node) ! i"
    and "B_spikes (node_B node') ! i = B_spikes (node_B node) ! i"
  using assms
  by (auto simp: psc_receptor_def Let_def get_value_def
      split: if_splits prod.splits sum.splits)

lemma psc_receptor_lengths:
  assumes "psc_receptor lag j node = (r, node')"
  shows "length (S_y1 (node_S node')) = length (S_y1 (node_S node))"
    and "length (S_y2 (node_S node')) = length (S_y2 (node_S node))"
    and "length (B_spikes (node_B node')) = length (B_spikes (node_B node))"
    and "B_currents (node_B node') = B_currents (node_B node)"
    and "S_I (node_S node') = S_I (node_S node)"
  using assms
  by (auto simp: psc_receptor_def Let_def get_value_def
      split: if_splits prod.splits sum.splits)

lemma psc_receptor_at:
  assumes "psc_receptor lag i node = (Inr (), node')"
  shows "lag < length (B_spikes (node_B node) ! i)"
    and "S_y2 (node_S node') ! i
         = V_P21 (node_V node) ! i * S_y1 (node_S node) ! i
           + V_P22 (node_V node) ! i * S_y2 (node_S node) ! i"
    and "S_y1 (node_S node') ! i
         = S_y1 (node_S node) ! i * V_P11 (node_V node) ! i
           + V_PSCInitialValues (node_V node) ! i * (B_spikes (node_B node) ! i ! lag)"
    and "B_spikes (node_B node') ! i = (B_spikes (node_B node) ! i)[lag := 0]"
  using assms
  by (auto simp: psc_receptor_def Let_def get_value_def
      split: if_splits prod.splits sum.splits)


lemma for_stmt_append_Inr:
  assumes "for_stmt (xs @ ys) body s = (Inr u, s')"
  obtains s1 where "for_stmt xs body s = (Inr (), s1)" and "for_stmt ys body s1 = (Inr u, s')"
  using assms
  by (auto simp: for_stmt_append split: prod.splits sum.splits)

lemma psc_loop_other:
  assumes "for_stmt idx (psc_receptor lag) node = (r, node')" and "i \<notin> set idx"
  shows "S_y1 (node_S node') ! i = S_y1 (node_S node) ! i"
    and "S_y2 (node_S node') ! i = S_y2 (node_S node) ! i"
    and "B_spikes (node_B node') ! i = B_spikes (node_B node) ! i"
    and "node_V node' = node_V node"
proof -
  let ?f = "\<lambda>nd. (S_y1 (node_S nd) ! i, S_y2 (node_S nd) ! i, B_spikes (node_B nd) ! i, node_V nd)"
  have "?f node' = ?f node"
  proof (rule for_stmt_preserves [OF assms(1)])
    fix j t r t'
    assume "j \<in> set idx" and b: "psc_receptor lag j t = (r, t')"
    with assms(2) have "j \<noteq> i" by auto
    from psc_receptor_other [OF b this] psc_receptor_membrane [OF b]
    show "?f t' = ?f t" by (simp add: membrane_part_def)
  qed
  then show "S_y1 (node_S node') ! i = S_y1 (node_S node) ! i"
    and "S_y2 (node_S node') ! i = S_y2 (node_S node) ! i"
    and "B_spikes (node_B node') ! i = B_spikes (node_B node) ! i"
    and "node_V node' = node_V node" by simp_all
qed

lemma psc_loop_at:
  assumes "for_stmt [0..<n] (psc_receptor lag) node = (Inr (), node')" and "i < n"
  shows "lag < length (B_spikes (node_B node) ! i)"
    and "S_y2 (node_S node') ! i
         = V_P21 (node_V node) ! i * S_y1 (node_S node) ! i
           + V_P22 (node_V node) ! i * S_y2 (node_S node) ! i"
    and "S_y1 (node_S node') ! i
         = S_y1 (node_S node) ! i * V_P11 (node_V node) ! i
           + V_PSCInitialValues (node_V node) ! i * (B_spikes (node_B node) ! i ! lag)"
    and "B_spikes (node_B node') ! i = (B_spikes (node_B node) ! i)[lag := 0]"
proof -
  from assms(2) have "[0..<n] = [0..<i] @ [i..<n]"
    using upt_add_eq_append [of 0 i "n - i"] by simp
  with assms(2) have split: "[0..<n] = [0..<i] @ [i] @ [Suc i..<n]"
    by (simp add: upt_conv_Cons)
  from assms(1) obtain n1 where l1: "for_stmt [0..<i] (psc_receptor lag) node = (Inr (), n1)"
    and rest: "for_stmt ([i] @ [Suc i..<n]) (psc_receptor lag) n1 = (Inr (), node')"
    unfolding split by (rule for_stmt_append_Inr)
  from rest obtain n2 where l2: "for_stmt [i] (psc_receptor lag) n1 = (Inr (), n2)"
    and l3: "for_stmt [Suc i..<n] (psc_receptor lag) n2 = (Inr (), node')"
    by (rule for_stmt_append_Inr)
  from l2 have at: "psc_receptor lag i n1 = (Inr (), n2)"
    by (auto simp: then_stmt_def return_stmt_def split: prod.splits sum.splits)
  have a: "i \<notin> set [0..<i]" and b: "i \<notin> set [Suc i..<n]" by simp_all
  note pre = psc_loop_other [OF l1 a]
  note post = psc_loop_other [OF l3 b]
  note mid = psc_receptor_at [OF at]
  from pre mid(1) show "lag < length (B_spikes (node_B node) ! i)" by simp
  from pre post mid(2) show "S_y2 (node_S node') ! i
         = V_P21 (node_V node) ! i * S_y1 (node_S node) ! i
           + V_P22 (node_V node) ! i * S_y2 (node_S node) ! i" by simp
  from pre post mid(3) show "S_y1 (node_S node') ! i
         = S_y1 (node_S node) ! i * V_P11 (node_V node) ! i
           + V_PSCInitialValues (node_V node) ! i * (B_spikes (node_B node) ! i ! lag)" by simp
  from pre post mid(4) show "B_spikes (node_B node') ! i = (B_spikes (node_B node) ! i)[lag := 0]"
    by simp
qed

lemma psc_loop_membrane:
  assumes "for_stmt idx (psc_receptor lag) node = (r, node')"
  shows "membrane_part node' = membrane_part node"
  by (rule for_stmt_preserves [OF assms]) (rule psc_receptor_membrane)

lemma consume_inputs_membrane:
  assumes "consume_inputs lag (node, loc) = (r, (node', loc'))"
  shows "membrane_part node' = membrane_part node"
proof -
  obtain r1 n1 where l: "for_stmt [0..<n_receptors (node_P node)] (psc_receptor lag) node = (r1, n1)"
    by (cases "for_stmt [0..<n_receptors (node_P node)] (psc_receptor lag) node")
  from psc_loop_membrane [OF l] have m: "membrane_part n1 = membrane_part node" .
  from assms l have "membrane_part node' = membrane_part n1"
    by (auto simp: consume_inputs_def get_value_def membrane_part_def Let_def
        split: sum.splits prod.splits if_splits)
  with m show ?thesis by simp
qed

lemma consume_inputs_locals:
  assumes "consume_inputs lag (node, loc) = (Inr (), (node', loc'))"
  shows "loc' = loc\<lparr>loc_v_old := S_U (node_S node'), loc_th_old := S_threshold (node_S node')\<rparr>"
  using assms
  by (auto simp: consume_inputs_def get_value_def Let_def
      split: sum.splits prod.splits if_splits)

lemma consume_inputs_at:
  assumes "consume_inputs lag (node, loc) = (Inr (), (node', loc'))"
    and "i < n_receptors (node_P node)"
  shows "lag < length (B_spikes (node_B node) ! i)"
    and "S_y2 (node_S node') ! i
         = V_P21 (node_V node) ! i * S_y1 (node_S node) ! i
           + V_P22 (node_V node) ! i * S_y2 (node_S node) ! i"
    and "S_y1 (node_S node') ! i
         = S_y1 (node_S node) ! i * V_P11 (node_V node) ! i
           + V_PSCInitialValues (node_V node) ! i * (B_spikes (node_B node) ! i ! lag)"
    and "B_spikes (node_B node') ! i = (B_spikes (node_B node) ! i)[lag := 0]"
proof -
  from assms(1) obtain n1 where
    l: "for_stmt [0..<n_receptors (node_P node)] (psc_receptor lag) node = (Inr (), n1)"
    and e: "S_y1 (node_S node') = S_y1 (node_S n1)" "S_y2 (node_S node') = S_y2 (node_S n1)"
      "B_spikes (node_B node') = B_spikes (node_B n1)"
    by (auto simp: consume_inputs_def get_value_def Let_def
        split: sum.splits prod.splits if_splits)
  note at = psc_loop_at [OF l assms(2)]
  from at(1) show "lag < length (B_spikes (node_B node) ! i)" .
  from at(2) e show "S_y2 (node_S node') ! i
         = V_P21 (node_V node) ! i * S_y1 (node_S node) ! i
           + V_P22 (node_V node) ! i * S_y2 (node_S node) ! i" by simp
  from at(3) e show "S_y1 (node_S node') ! i
         = S_y1 (node_S node) ! i * V_P11 (node_V node) ! i
           + V_PSCInitialValues (node_V node) ! i * (B_spikes (node_B node) ! i ! lag)" by simp
  from at(4) e show "B_spikes (node_B node') ! i = (B_spikes (node_B node) ! i)[lag := 0]"
    by simp
qed


lemma keepsD: "keeps g m \<Longrightarrow> m s = (r, s') \<Longrightarrow> g s' = g s"
  by (simp add: keeps_def)

lemma keeps_return: "keeps g (return_stmt a)"
  by (simp add: keeps_def return_stmt_def)

lemma keeps_throw_if: "keeps g (throw_if c e)"
  by (simp add: keeps_def throw_if_def)

lemma keeps_assign: "(\<And>s. g (h s) = g s) \<Longrightarrow> keeps g (assign h)"
  by (auto simp: keeps_def assign_def)

lemma keeps_then: "keeps g m \<Longrightarrow> (\<And>a. keeps g (f a)) \<Longrightarrow> keeps g (then_stmt m f)"
  unfolding keeps_def then_stmt_def
  by (auto split: prod.splits sum.splits)

lemma keeps_if: "keeps g m \<Longrightarrow> keeps g n \<Longrightarrow> keeps g (if c then m else n)"
  by simp

lemma keeps_for: "(\<And>j. keeps g (body j)) \<Longrightarrow> keeps g (for_stmt idx body)"
  unfolding keeps_def
  by (auto dest: for_stmt_preserves [where f = g])

lemma keeps_for_bound:
  "(\<And>j. keeps g (body j)) \<Longrightarrow> keeps g (\<lambda>s. for_stmt (idx s) body s)"
  unfolding keeps_def
  by (auto dest: for_stmt_preserves [where f = g])

lemmas keeps_intros =
  keeps_then keeps_if keeps_for_bound keeps_for keeps_assign keeps_throw_if keeps_return

lemma reset_ASCurrent_synaptic: "keeps synaptic_part (reset_ASCurrent a)"
  by (auto simp: keeps_def reset_ASCurrent_def synaptic_part_def Let_def split: if_splits)

lemma decay_ASCurrent_synaptic: "keeps synaptic_part (decay_ASCurrent dt a)"
  by (auto simp: keeps_def decay_ASCurrent_def synaptic_part_def Let_def split: if_splits)

lemma add_synapse_synaptic: "keeps synaptic_part (add_synapse i)"
  by (auto simp: keeps_def add_synapse_def synaptic_part_def Let_def split: if_splits)

lemma leave_refractory_synaptic: "keeps synaptic_part (leave_refractory model_type)"
  unfolding leave_refractory_def
  by (intro keeps_intros reset_ASCurrent_synaptic) (simp_all add: synaptic_part_def Let_def)

lemma integrate_voltage_synaptic: "keeps synaptic_part (integrate_voltage dt model_type v_old)"
  unfolding integrate_voltage_def
  by (intro keeps_intros decay_ASCurrent_synaptic add_synapse_synaptic)
     (simp_all add: synaptic_part_def Let_def)

lemma detect_spike_synaptic:
  "synaptic_part (detect_spike dt origin lag loc node) = synaptic_part node"
  by (simp add: detect_spike_def synaptic_part_def Let_def)

lemma refractory_synaptic:
  assumes "refractory dt model_type (node, loc) = (r, (node', loc'))"
  shows "synaptic_part node' = synaptic_part node" and "loc' = loc"
proof -
  let ?n = "node\<lparr>node_V := (node_V node)\<lparr>V_t_ref_remaining :=
                     round_double (V_t_ref_remaining (node_V node) - dt)\<rparr>\<rparr>"
  have s: "synaptic_part ?n = synaptic_part node" by (simp add: synaptic_part_def)
  show "synaptic_part node' = synaptic_part node"
  proof (cases "round_double (V_t_ref_remaining (node_V node) - dt) \<le> 0")
    case True
    with assms have "leave_refractory model_type ?n = (r, node')"
      by (auto simp: refractory_def Let_def split: prod.splits)
    from keepsD [OF leave_refractory_synaptic this] s show ?thesis by simp
  next
    case False
    with assms show ?thesis
      by (auto simp: refractory_def Let_def synaptic_part_def)
  qed
  from assms show "loc' = loc"
    by (auto simp: refractory_def Let_def split: prod.splits if_splits)
qed

lemma integrate_synaptic:
  assumes "integrate dt model_type origin lag (node, loc) = (r, (node', loc'))"
  shows "synaptic_part node' = synaptic_part node"
proof -
  obtain r1 n1 where iv: "integrate_voltage dt model_type (loc_v_old loc) node = (r1, n1)"
    by (cases "integrate_voltage dt model_type (loc_v_old loc) node")
  from keepsD [OF integrate_voltage_synaptic iv]
  have s: "synaptic_part n1 = synaptic_part node" .
  from assms iv have "synaptic_part node' = synaptic_part n1"
    by (cases r1) (auto simp: integrate_def Let_def detect_spike_synaptic, simp_all add: synaptic_part_def)
  with s show ?thesis by simp
qed

lemma decay_spike_component_synaptic:
  assumes "decay_spike_component dt model_type (node, loc) = (node', loc')"
  shows "synaptic_part node' = synaptic_part node"
  using assms by (auto simp: decay_spike_component_def Let_def synaptic_part_def)


lemma update_step_unfold:
  "update_step dt model_type origin lag st =
     (case (if V_t_ref_remaining (node_V (fst (decay_spike_component dt model_type st))) > 0
            then refractory dt model_type (decay_spike_component dt model_type st)
            else integrate dt model_type origin lag (decay_spike_component dt model_type st)) of
        (Inl e, st') \<Rightarrow> (Inl e, st')
      | (Inr _, st') \<Rightarrow> consume_inputs lag st')"
  by (simp add: update_step_def then_stmt_def assign_def)

lemma update_step_Inr:
  assumes "update_step dt model_type origin lag (node, loc) = (Inr (), (node', loc'))"
  obtains n0 l0 n1 l1 where "decay_spike_component dt model_type (node, loc) = (n0, l0)"
    and "(if V_t_ref_remaining (node_V n0) > 0 then refractory dt model_type (n0, l0)
          else integrate dt model_type origin lag (n0, l0)) = (Inr (), (n1, l1))"
    and "consume_inputs lag (n1, l1) = (Inr (), (node', loc'))"
proof -
  obtain n0 l0 where d: "decay_spike_component dt model_type (node, loc) = (n0, l0)"
    by (cases "decay_spike_component dt model_type (node, loc)")
  let ?b = "if V_t_ref_remaining (node_V n0) > 0 then refractory dt model_type (n0, l0)
          else integrate dt model_type origin lag (n0, l0)"
  obtain r1 n1 l1 where b: "?b = (r1, (n1, l1))" by (cases ?b) auto
  from assms d b have "r1 = Inr ()" and "consume_inputs lag (n1, l1) = (Inr (), (node', loc'))"
    unfolding update_step_unfold by (auto split: sum.splits if_splits)
  with d b that show ?thesis by blast
qed

lemma update_step_synapse:
  assumes "update_step dt model_type origin lag (node, loc) = (Inr (), (node', loc'))"
    and "i < n_receptors (node_P node)"
  shows "node_P node' = node_P node"
    and "V_P11 (node_V node') = V_P11 (node_V node)"
    and "V_P21 (node_V node') = V_P21 (node_V node)"
    and "V_P22 (node_V node') = V_P22 (node_V node)"
    and "V_PSCInitialValues (node_V node') = V_PSCInitialValues (node_V node)"
    and "lag < length (B_spikes (node_B node) ! i)"
    and "S_y2 (node_S node') ! i
         = V_P21 (node_V node) ! i * S_y1 (node_S node) ! i
           + V_P22 (node_V node) ! i * S_y2 (node_S node) ! i"
    and "S_y1 (node_S node') ! i
         = S_y1 (node_S node) ! i * V_P11 (node_V node) ! i
           + V_PSCInitialValues (node_V node) ! i * (B_spikes (node_B node) ! i ! lag)"
    and "B_spikes (node_B node') ! i = (B_spikes (node_B node) ! i)[lag := 0]"
proof -
  from assms(1) obtain n0 l0 n1 l1 where
    d: "decay_spike_component dt model_type (node, loc) = (n0, l0)"
    and b: "(if V_t_ref_remaining (node_V n0) > 0 then refractory dt model_type (n0, l0)
          else integrate dt model_type origin lag (n0, l0)) = (Inr (), (n1, l1))"
    and c: "consume_inputs lag (n1, l1) = (Inr (), (node', loc'))"
    by (rule update_step_Inr)
  from decay_spike_component_synaptic [OF d] have s0: "synaptic_part n0 = synaptic_part node" .
  from b have "synaptic_part n1 = synaptic_part n0"
    by (auto split: if_splits dest: refractory_synaptic(1) integrate_synaptic)
  with s0 have s1: "synaptic_part n1 = synaptic_part node" by simp
  then have i1: "i < n_receptors (node_P n1)" using assms(2) by (simp add: synaptic_part_def)
  note at = consume_inputs_at [OF c i1]
  from consume_inputs_membrane [OF c] have m: "membrane_part node' = membrane_part n1" .
  from m s1 show "node_P node' = node_P node"
    and "V_P11 (node_V node') = V_P11 (node_V node)"
    and "V_P21 (node_V node') = V_P21 (node_V node)"
    and "V_P22 (node_V node') = V_P22 (node_V node)"
    and "V_PSCInitialValues (node_V node') = V_PSCInitialValues (node_V node)"
    by (simp_all add: membrane_part_def synaptic_part_def)
  from at(1) s1 show "lag < length (B_spikes (node_B node) ! i)"
    by (simp add: synaptic_part_def)
  from at(2) s1 show "S_y2 (node_S node') ! i
         = V_P21 (node_V node) ! i * S_y1 (node_S node) ! i
           + V_P22 (node_V node) ! i * S_y2 (node_S node) ! i"
    by (simp add: synaptic_part_def)
  from at(3) s1 show "S_y1 (node_S node') ! i
         = S_y1 (node_S node) ! i * V_P11 (node_V node) ! i
           + V_PSCInitialValues (node_V node) ! i * (B_spikes (node_B node) ! i ! lag)"
    by (simp add: synaptic_part_def)
  from at(4) s1 show "B_spikes (node_B node') ! i = (B_spikes (node_B node) ! i)[lag := 0]"
    by (simp add: synaptic_part_def)
qed

lemma replicate_zero_update: "(replicate n (0::real))[k := 0] = replicate n 0"
  by (cases "k < n") (auto simp: list_eq_iff_nth_eq nth_list_update)

lemma single_event_run:
  assumes "for_stmt [0..<m] (update_step dt model_type origin) (node, loc)
             = (Inr (), (node', loc'))"
    and "i < n_receptors (node_P node)"
    and "S_y1 (node_S node) ! i = 0" and "S_y2 (node_S node) ! i = 0"
    and "B_spikes (node_B node) ! i = (replicate horizon 0)[d := w]"
    and "V_P22 (node_V node) ! i = V_P11 (node_V node) ! i"
    and "V_P21 (node_V node) ! i = dt * V_P11 (node_V node) ! i"
  shows "node_P node' = node_P node
     \<and> V_P11 (node_V node') = V_P11 (node_V node)
     \<and> V_P21 (node_V node') = V_P21 (node_V node)
     \<and> V_P22 (node_V node') = V_P22 (node_V node)
     \<and> V_PSCInitialValues (node_V node') = V_PSCInitialValues (node_V node)
     \<and> B_spikes (node_B node') ! i
         = (if m \<le> d then (replicate horizon 0)[d := w] else replicate horizon 0)
     \<and> S_y1 (node_S node') ! i
         = (if m \<le> d then 0
            else V_PSCInitialValues (node_V node) ! i * w * V_P11 (node_V node) ! i ^ (m - 1 - d))
     \<and> S_y2 (node_S node') ! i
         = (if m \<le> d then 0
            else real (m - 1 - d) * dt * (V_PSCInitialValues (node_V node) ! i * w)
                 * V_P11 (node_V node) ! i ^ (m - 1 - d))"
  using assms(1)
proof (induction m arbitrary: node' loc')
  case 0
  then show ?case using assms(3-5) by (simp add: return_stmt_def)
next
  case (Suc m)
  from Suc.prems obtain st1 where
    r1: "for_stmt [0..<m] (update_step dt model_type origin) (node, loc) = (Inr (), st1)"
    and r2: "for_stmt [m] (update_step dt model_type origin) st1 = (Inr (), (node', loc'))"
    by (auto elim: for_stmt_append_Inr)
  obtain n1 l1 where st1: "st1 = (n1, l1)" by (cases st1)
  note ih = Suc.IH [OF r1 [unfolded st1]]
  from r2 st1 have step: "update_step dt model_type origin m (n1, l1) = (Inr (), (node', loc'))"
    by (auto simp: then_stmt_def return_stmt_def split: prod.splits sum.splits)
  from ih assms(2) have i1: "i < n_receptors (node_P n1)" by simp
  note s = update_step_synapse [OF step i1]
  from s(6) ih have mlen: "m < horizon" by (simp split: if_splits)
  have buf: "B_spikes (node_B node') ! i
         = (if Suc m \<le> d then (replicate horizon 0)[d := w] else replicate horizon 0)"
  proof (cases "m < d")
    case True
    then have "(replicate horizon (0::real))[d := w, m := 0] = (replicate horizon 0)[d := w]"
      by (simp add: list_update_swap [of d m] replicate_zero_update)
    with True s(9) ih show ?thesis by simp
  next
    case False
    show ?thesis
    proof (cases "m = d")
      case True
      with s(9) ih show ?thesis by (simp add: replicate_zero_update)
    next
      case neq: False
      with False have "d < m" by simp
      with s(9) ih show ?thesis by (simp add: replicate_zero_update not_le)
    qed
  qed
  have rd: "B_spikes (node_B n1) ! i ! m = (if m = d then w else 0)"
    using ih mlen by (auto simp: nth_list_update)
  have y1: "S_y1 (node_S node') ! i
         = (if Suc m \<le> d then 0
            else V_PSCInitialValues (node_V node) ! i * w * V_P11 (node_V node) ! i ^ (Suc m - 1 - d))"
  proof (cases "m < d")
    case True
    with s(8) ih rd show ?thesis by simp
  next
    case False
    show ?thesis
    proof (cases "m = d")
      case True
      with s(8) ih rd show ?thesis by simp
    next
      case neq: False
      with False have gt: "d < m" by simp
      then have "Suc m - 1 - d = Suc (m - 1 - d)" by simp
      with gt s(8) ih rd neq show ?thesis by (simp add: not_le)
    qed
  qed
  have y2: "S_y2 (node_S node') ! i
         = (if Suc m \<le> d then 0
            else real (Suc m - 1 - d) * dt * (V_PSCInitialValues (node_V node) ! i * w)
                 * V_P11 (node_V node) ! i ^ (Suc m - 1 - d))"
  proof (cases "m \<le> d")
    case True
    with s(7) ih show ?thesis by (auto simp: not_less_eq_eq)
  next
    case False
    then have gt: "d < m" by simp
    then have e: "Suc m - 1 - d = Suc (m - 1 - d)" by simp
    from gt s(7) ih assms(6,7) show ?thesis
      unfolding e by (simp add: not_le algebra_simps)
  qed
  from s(1-5) ih buf y1 y2 show ?case by simp
qed


subsection \<open>A single spike on one receptor\<close>

lemma fold_calibrate_receptor:
  "node_P (fold (calibrate_receptor h horizon p31 p32 Tau) [0..<m] node) = node_P node
    \<and> node_S (fold (calibrate_receptor h horizon p31 p32 Tau) [0..<m] node) = node_S node
    \<and> length (V_P11 (node_V (fold (calibrate_receptor h horizon p31 p32 Tau) [0..<m] node))) = length (V_P11 (node_V node))
    \<and> length (V_P21 (node_V (fold (calibrate_receptor h horizon p31 p32 Tau) [0..<m] node))) = length (V_P21 (node_V node))
    \<and> length (V_P22 (node_V (fold (calibrate_receptor h horizon p31 p32 Tau) [0..<m] node))) = length (V_P22 (node_V node))
    \<and> length (V_PSCInitialValues (node_V (fold (calibrate_receptor h horizon p31 p32 Tau) [0..<m] node)))
        = length (V_PSCInitialValues (node_V node))
    \<and> (\<forall>i<m. i < length (V_P11 (node_V node)) \<longrightarrow>
          V_P11 (node_V (fold (calibrate_receptor h horizon p31 p32 Tau) [0..<m] node)) ! i = exp (- h / P_tau_syn (node_P node) ! i))
    \<and> (\<forall>i<m. i < length (V_P22 (node_V node)) \<longrightarrow>
          V_P22 (node_V (fold (calibrate_receptor h horizon p31 p32 Tau) [0..<m] node)) ! i = exp (- h / P_tau_syn (node_P node) ! i))
    \<and> (\<forall>i<m. i < length (V_P21 (node_V node)) \<longrightarrow>
          V_P21 (node_V (fold (calibrate_receptor h horizon p31 p32 Tau) [0..<m] node)) ! i = h * exp (- h / P_tau_syn (node_P node) ! i))
    \<and> (\<forall>i<m. i < length (V_PSCInitialValues (node_V node)) \<longrightarrow>
          V_PSCInitialValues (node_V (fold (calibrate_receptor h horizon p31 p32 Tau) [0..<m] node)) ! i
            = exp 1 / P_tau_syn (node_P node) ! i)"
proof (induction m)
  case 0
  show ?case by simp
next
  case (Suc m)
  then show ?case
    by (auto simp: calibrate_receptor_def Let_def nth_list_update less_Suc_eq)
qed

lemma calibrate_synapse:
  assumes "i < n_receptors (node_P node)"
  shows "node_P (calibrate h horizon p31 p32 node) = node_P node"
    and "V_P11 (node_V (calibrate h horizon p31 p32 node)) ! i
           = exp (- h / P_tau_syn (node_P node) ! i)"
    and "V_P22 (node_V (calibrate h horizon p31 p32 node)) ! i
           = exp (- h / P_tau_syn (node_P node) ! i)"
    and "V_P21 (node_V (calibrate h horizon p31 p32 node)) ! i
           = h * exp (- h / P_tau_syn (node_P node) ! i)"
    and "V_PSCInitialValues (node_V (calibrate h horizon p31 p32 node)) ! i
           = exp 1 / P_tau_syn (node_P node) ! i"
  using assms fold_calibrate_receptor [of h horizon p31 p32 "P_C_m (node_P node) / P_G (node_P node)"
      "n_receptors (node_P node)"]
  by (simp_all add: calibrate_def Let_def resize_vector_def)

lemma handle_SpikeEvent_Inr:
  assumes "handle_SpikeEvent e node = (Inr (), node')" and "e_rport e = int i + 1"
  shows "e_rel_delivery_steps e < length (B_spikes (node_B node) ! i)"
    and "B_spikes (node_B node') ! i
         = (B_spikes (node_B node) ! i)[e_rel_delivery_steps e :=
              B_spikes (node_B node) ! i ! e_rel_delivery_steps e
              + e_weight e * real_of_int (e_multiplicity e)]"
    and "node_P node' = node_P node" and "node_V node' = node_V node"
    and "node_S node' = node_S node"
  using assms
  by (auto simp: handle_SpikeEvent_def add_value_def split: if_splits prod.splits)

lemma update_Inr:
  assumes "update model_type_lu dt origin lo hi node = (Inr (), node')"
  obtains model_type loc' where
    "model_type_lu (map tolower (P_glif_model (node_P node))) = Some model_type"
    and "for_stmt [lo..<hi] (update_step dt model_type origin)
           (node, \<lparr>loc_v_old = S_U (node_S node), loc_spike_component = 0,
                    loc_voltage_component = 0, loc_th_old = S_threshold (node_S node)\<rparr>)
           = (Inr (), (node', loc'))"
  using assms
  by (auto simp: update_def Let_def split: option.splits prod.splits)

text \<open>
  Claim C9. A node is calibrated for the step size \<open>h\<close>; the stage variables of its
  receptor \<open>i\<close> are zero and the ring buffer of the receptor is empty. One spike event of
  weight 1 and multiplicity 1 is handled for the receptor, to be delivered at the step \<open>d\<close>
  of the slice, and \<open>update\<close> runs the steps 0 to \<open>m - 1\<close> without an error. Then, up to
  and including the last step before \<open>d\<close>, both stage variables of the receptor are zero.
  After the step \<open>d\<close> itself the first stage variable is \<open>e / tau_syn[i]\<close>, and \<open>k\<close> steps
  later the first is \<open>e / tau_syn[i] * exp (- h / tau_syn[i]) ^ k\<close> and the second is
  \<open>k * h * e / tau_syn[i] * exp (- h / tau_syn[i]) ^ k\<close>: the alpha function sampled at the
  steps. From the step \<open>d\<close> on the first stage variable is positive.
\<close>

theorem single_spike_alpha_kinetics:
  assumes "i < n_receptors (node_P nodeA)"
    and "node0 = calibrate h horizon propagator_31 propagator_32 nodeA"
    and "S_y1 (node_S node0) ! i = 0" and "S_y2 (node_S node0) ! i = 0"
    and "B_spikes (node_B node0) ! i = replicate horizon 0"
    and "e_rport e = int i + 1" and "e_rel_delivery_steps e = d"
    and "e_weight e = 1" and "e_multiplicity e = 1"
    and "handle_SpikeEvent e node0 = (Inr (), node1)"
    and "update model_type_lu h origin 0 m node1 = (Inr (), node2)"
  shows "S_y1 (node_S node2) ! i
           = (if m \<le> d then 0
              else exp 1 / P_tau_syn (node_P nodeA) ! i
                   * exp (- h / P_tau_syn (node_P nodeA) ! i) ^ (m - 1 - d))
       \<and> S_y2 (node_S node2) ! i
           = (if m \<le> d then 0
              else real (m - 1 - d) * h * (exp 1 / P_tau_syn (node_P nodeA) ! i)
                   * exp (- h / P_tau_syn (node_P nodeA) ! i) ^ (m - 1 - d))
       \<and> (d < m \<and> 0 < P_tau_syn (node_P nodeA) ! i \<longrightarrow> 0 < S_y1 (node_S node2) ! i)"
proof -
  note cal = calibrate_synapse [OF assms(1), of h horizon propagator_31 propagator_32,
      folded assms(2)]
  note ev = handle_SpikeEvent_Inr [OF assms(10) assms(6)]
  from assms(11) obtain model_type loc' where
    run: "for_stmt [0..<m] (update_step h model_type origin)
           (node1, \<lparr>loc_v_old = S_U (node_S node1), loc_spike_component = 0,
                    loc_voltage_component = 0, loc_th_old = S_threshold (node_S node1)\<rparr>)
           = (Inr (), (node2, loc'))"
    by (rule update_Inr)
  have i1: "i < n_receptors (node_P node1)" using assms(1) cal(1) ev(3) by simp
  have y: "S_y1 (node_S node1) ! i = 0" "S_y2 (node_S node1) ! i = 0"
    using assms(3,4) ev(5) by simp_all
  have buf: "B_spikes (node_B node1) ! i = (replicate horizon 0)[d := 1]"
    using ev(1,2) assms(5,7,8,9) by simp
  have p: "V_P22 (node_V node1) ! i = V_P11 (node_V node1) ! i"
    "V_P21 (node_V node1) ! i = h * V_P11 (node_V node1) ! i"
    using cal ev(4) by simp_all
  from single_event_run [OF run i1 y buf p] cal ev(4)
  have a: "S_y1 (node_S node2) ! i
           = (if m \<le> d then 0
              else exp 1 / P_tau_syn (node_P nodeA) ! i
                   * exp (- h / P_tau_syn (node_P nodeA) ! i) ^ (m - 1 - d))"
    and b: "S_y2 (node_S node2) ! i
           = (if m \<le> d then 0
              else real (m - 1 - d) * h * (exp 1 / P_tau_syn (node_P nodeA) ! i)
                   * exp (- h / P_tau_syn (node_P nodeA) ! i) ^ (m - 1 - d))"
    by simp_all
  have "0 < S_y1 (node_S node2) ! i" if "d < m" and "0 < P_tau_syn (node_P nodeA) ! i"
    using that a by simp
  with a b show ?thesis by blast
qed

lemma upt_0_1: "[0..<1] = [0]"
  by (simp add: upt_rec)

theorem single_spike_alpha_kinetics_witness:
  "fst (handle_SpikeEvent
         \<lparr>e_rport = 1, e_delay_steps = 1, e_rel_delivery_steps = 0, e_weight = 1,
            e_multiplicity = 1\<rparr>
         (calibrate 1 5 (\<lambda>_ _ _ _. 0) (\<lambda>_ _ _ _. 0) (init_buffers 5 glif_psc_default)))
     = Inr ()
   \<and> fst (update example_model_type_lu 1 0 0 1
         (snd (handle_SpikeEvent
           \<lparr>e_rport = 1, e_delay_steps = 1, e_rel_delivery_steps = 0, e_weight = 1,
              e_multiplicity = 1\<rparr>
           (calibrate 1 5 (\<lambda>_ _ _ _. 0) (\<lambda>_ _ _ _. 0) (init_buffers 5 glif_psc_default)))))
     = Inr ()
   \<and> S_y1 (node_S (snd (update example_model_type_lu 1 0 0 1
         (snd (handle_SpikeEvent
           \<lparr>e_rport = 1, e_delay_steps = 1, e_rel_delivery_steps = 0, e_weight = 1,
              e_multiplicity = 1\<rparr>
           (calibrate 1 5 (\<lambda>_ _ _ _. 0) (\<lambda>_ _ _ _. 0) (init_buffers 5 glif_psc_default))))))) ! 0
     = exp 1 / 2"
proof -
  let ?e = "\<lparr>e_rport = 1, e_delay_steps = 1, e_rel_delivery_steps = 0, e_weight = 1,
            e_multiplicity = 1\<rparr>"
  let ?A = "init_buffers 5 glif_psc_default"
  let ?n0 = "calibrate 1 5 (\<lambda>_ _ _ _. 0) (\<lambda>_ _ _ _. 0) ?A"
  have n0: "?n0 = glif_psc_default\<lparr>
      node_S := (State_init Parameters_default)\<lparr>S_y1 := [0], S_y2 := [0]\<rparr>,
      node_V := \<lparr> V_t_ref_remaining = 0, V_t_ref_total = 375 / 100, V_last_spike = 0,
                  V_last_voltage = 0, V_P11 = [exp (- 1 / 2)], V_P21 = [exp (- 1 / 2)],
                  V_P22 = [exp (- 1 / 2)], V_P31 = [0],
                  V_P32 = [0],
                  V_P30 = 1 / (5872 / 100) * (1 - exp (- 1 / ((5872 / 100) / (943 / 100))))
                          * ((5872 / 100) / (943 / 100)),
                  V_P33 = exp (- 1 / ((5872 / 100) / (943 / 100))),
                  V_PSCInitialValues = [exp 1 / 2] \<rparr>,
      node_B := \<lparr> B_spikes = [[0, 0, 0, 0, 0]], B_currents = [0, 0, 0, 0, 0] \<rparr>\<rparr>"
    by (simp add: calibrate_def Let_def init_buffers_def glif_psc_default_def
        Parameters_default_def State_init_def n_receptors_def resize_vector_def
        calibrate_receptor_def RingBuffer_resize_def numeral_eq_Suc)
  let ?N0 = "glif_psc_default\<lparr>
      node_S := (State_init Parameters_default)\<lparr>S_y1 := [0], S_y2 := [0]\<rparr>,
      node_V := \<lparr> V_t_ref_remaining = 0, V_t_ref_total = 375 / 100, V_last_spike = 0,
                  V_last_voltage = 0, V_P11 = [exp (- 1 / 2)], V_P21 = [exp (- 1 / 2)],
                  V_P22 = [exp (- 1 / 2)], V_P31 = [0],
                  V_P32 = [0],
                  V_P30 = 1 / (5872 / 100) * (1 - exp (- 1 / ((5872 / 100) / (943 / 100))))
                          * ((5872 / 100) / (943 / 100)),
                  V_P33 = exp (- 1 / ((5872 / 100) / (943 / 100))),
                  V_PSCInitialValues = [exp 1 / 2] \<rparr>,
      node_B := \<lparr> B_spikes = [[0, 0, 0, 0, 0]], B_currents = [0, 0, 0, 0, 0] \<rparr>\<rparr>"
  let ?N1 = "?N0\<lparr>node_B :=
      \<lparr> B_spikes = [[1, 0, 0, 0, 0]], B_currents = [0, 0, 0, 0, 0] \<rparr>\<rparr>"
  have h0: "handle_SpikeEvent ?e ?N0 = (Inr (), ?N1)"
    by (simp add: handle_SpikeEvent_def add_value_def glif_psc_default_def)
  have h: "handle_SpikeEvent ?e ?n0 = (Inr (), ?N1)"
    by (simp only: n0 h0)
  have lif: "tolower CHR ''l'' = CHR ''l''" "tolower CHR ''i'' = CHR ''i''"
    "tolower CHR ''f'' = CHR ''f''" by code_simp+
  have lu: "example_model_type_lu ''lif'' = Some 1"
    by (simp add: example_model_type_lu_def)
  have u0: "fst (update example_model_type_lu 1 0 0 1 ?N1) = Inr ()"
    apply (simp add: update_def glif_psc_default_def Parameters_default_def lif lu upt_0_1
        State_init_def Let_def)
    apply (simp add: update_step_def then_stmt_def assign_def return_stmt_def
        decay_spike_component_def integrate_def integrate_voltage_def consume_inputs_def
        n_receptors_def add_synapse_def psc_receptor_def get_value_def detect_spike_def
        Let_def upt_0_1)
    done
  let ?n2 = "snd (update example_model_type_lu 1 0 0 1 ?N1)"
  have u: "update example_model_type_lu 1 0 0 1 ?N1 = (Inr (), ?n2)"
    using u0 by (simp add: prod_eq_iff)
  have i: "0 < n_receptors (node_P ?A)"
    by (simp add: init_buffers_def glif_psc_default_def Parameters_default_def n_receptors_def)
  have tau: "P_tau_syn (node_P ?A) ! 0 = 2"
    by (simp add: init_buffers_def glif_psc_default_def Parameters_default_def)
  have y: "S_y1 (node_S ?n0) ! 0 = 0" "S_y2 (node_S ?n0) ! 0 = 0"
    "B_spikes (node_B ?n0) ! 0 = replicate 5 0"
    unfolding n0 by (simp_all add: numeral_eq_Suc)
  have ev: "e_rport ?e = int 0 + 1" "e_rel_delivery_steps ?e = 0" "e_weight ?e = 1"
    "e_multiplicity ?e = 1" by simp_all
  from single_spike_alpha_kinetics [OF i refl y ev h u]
  have "S_y1 (node_S ?n2) ! 0 = exp 1 / 2"
    by (simp add: tau)
  with u0 show ?thesis by (simp only: h snd_conv fst_conv simp_thms)
qed


subsection \<open>Rounding to a double\<close>

text \<open>
  Rounding keeps the sign of a number that is zero or less. Where the binade of a number
  is known, \<open>round_double\<close> is the rounding to a multiple of the spacing of that binade.
\<close>

lemma round_even_nonpos:
  assumes "x \<le> 0"
  shows "round_even x \<le> 0"
proof (cases "\<lfloor>x\<rfloor> = 0")
  case True
  then have "0 \<le> x" by (simp add: floor_eq_iff)
  with assms have "x = 0" by simp
  then show ?thesis by (simp add: round_even_def)
next
  case False
  moreover from assms have "\<lfloor>x\<rfloor> \<le> 0" using floor_mono [of x 0] by simp
  ultimately have "\<lfloor>x\<rfloor> + 1 \<le> 0" by linarith
  then show ?thesis by (simp add: round_even_def Let_def)
qed

lemma round_double_nonpos:
  assumes "x \<le> 0"
  shows "round_double x \<le> 0"
proof -
  have u: "(0::real) < 2 powi (binade x - 52)" by (simp add: zero_less_power_int)
  with assms have "x / 2 powi (binade x - 52) \<le> 0" by (simp add: divide_le_0_iff)
  then have "round_even (x / 2 powi (binade x - 52)) \<le> 0" by (rule round_even_nonpos)
  with u show ?thesis
    by (simp add: round_double_def Let_def mult_le_0_iff)
qed

lemma find_upto_first:
  assumes "lo \<le> e" and "e \<le> hi" and "P e" and "\<And>j. lo \<le> j \<Longrightarrow> j < e \<Longrightarrow> \<not> P j"
  shows "find P [lo..hi] = Some e"
proof -
  let ?i = "nat (e - lo)"
  have len: "?i < length [lo..hi]" using assms(1,2) by simp
  have at: "[lo..hi] ! j = lo + int j" if "j \<le> ?i" for j
    using that assms(1,2) by (simp add: nth_upto)
  have "\<not> P ([lo..hi] ! j)" if "j < ?i" for j
    using that at [of j] assms(4) [of "lo + int j"] by simp
  moreover from at [of ?i] assms(1,3) have "P ([lo..hi] ! ?i)" "e = [lo..hi] ! ?i"
    by simp_all
  ultimately show ?thesis
    unfolding find_Some_iff using len by blast
qed

lemma binade_eq:
  assumes "2 powi e \<le> \<bar>x\<bar>" and "\<bar>x\<bar> < 2 powi (e + 1)"
    and "- 1022 \<le> e" and "e \<le> 1023"
  shows "binade x = e"
proof -
  have "\<not> \<bar>x\<bar> < 2 powi (j + 1)" if "j < e" for j
  proof -
    from that have "j + 1 \<le> e" by simp
    then have "(2::real) powi (j + 1) \<le> 2 powi e"
      by (rule power_int_increasing) simp
    with assms(1) show ?thesis by simp
  qed
  then have "find (\<lambda>e. \<bar>x\<bar> < 2 powi (e + 1)) [- 1022..1023] = Some e"
    by (intro find_upto_first assms)
  then show ?thesis unfolding binade_def by simp
qed

lemma round_double_binade:
  assumes "2 powi e \<le> \<bar>x\<bar>" and "\<bar>x\<bar> < 2 powi (e + 1)"
    and "- 1022 \<le> e" and "e \<le> 1023"
  shows "round_double x = of_int (round_even (x / 2 powi (e - 52))) * 2 powi (e - 52)"
  by (simp add: round_double_def Let_def binade_eq [OF assms])

subsection \<open>The refractory period\<close>

lemma reset_ASCurrent_rest:
  "keeps (\<lambda>n. (node_P n, node_V n, S_U (node_S n), S_threshold (node_S n),
               node_spiketimes n, node_sent n, node_printed n,
               length (S_ASCurrents (node_S n)))) (reset_ASCurrent a)"
  by (auto simp: keeps_def reset_ASCurrent_def Let_def split: if_splits)

lemma reset_loop_rest:
  assumes "for_stmt idx reset_ASCurrent node = (r, node')"
  shows "node_P node' = node_P node" and "node_V node' = node_V node"
    and "S_U (node_S node') = S_U (node_S node)"
    and "S_threshold (node_S node') = S_threshold (node_S node)"
    and "node_spiketimes node' = node_spiketimes node" and "node_sent node' = node_sent node"
    and "node_printed node' = node_printed node"
    and "length (S_ASCurrents (node_S node')) = length (S_ASCurrents (node_S node))"
  using keepsD [OF keeps_for [of _ reset_ASCurrent, OF reset_ASCurrent_rest] assms]
  by simp_all

lemma map_update_step:
  assumes "m < L"
  shows "(map (\<lambda>a. if a < m then f a else g a) [0..<L])[m := f m]
         = map (\<lambda>a. if a < Suc m then f a else g a) [0..<L]"
  using assms by (intro nth_equalityI) (auto simp: nth_list_update less_Suc_eq)

lemma reset_loop:
  assumes "for_stmt [0..<m] reset_ASCurrent node = (Inr (), node')"
    and "m \<le> length (S_ASCurrents (node_S node))"
  shows "S_ASCurrents (node_S node') =
           map (\<lambda>a. if a < m
                    then P_asc_amps (node_P node) ! a
                         + S_ASCurrents (node_S node) ! a * P_r (node_P node) ! a
                           * exp (- P_k (node_P node) ! a * V_t_ref_total (node_V node))
                    else S_ASCurrents (node_S node) ! a)
               [0..<length (S_ASCurrents (node_S node))]"
  using assms
proof (induction m arbitrary: node')
  case 0
  then show ?case by (simp add: return_stmt_def map_nth)
next
  case (Suc m)
  from Suc.prems(1) obtain n1 where
    r1: "for_stmt [0..<m] reset_ASCurrent node = (Inr (), n1)"
    and r2: "for_stmt [m] reset_ASCurrent n1 = (Inr (), node')"
    by (auto elim: for_stmt_append_Inr)
  from Suc.prems(2) have m: "m < length (S_ASCurrents (node_S node))" by simp
  then have "m \<le> length (S_ASCurrents (node_S node))" by simp
  note ih = Suc.IH [OF r1 this]
  note rest = reset_loop_rest [OF r1]
  from r2 have step: "reset_ASCurrent m n1 = (Inr (), node')"
    by (auto simp: then_stmt_def return_stmt_def split: prod.splits sum.splits)
  then have "S_ASCurrents (node_S node') = (S_ASCurrents (node_S n1))[m :=
                 P_asc_amps (node_P n1) ! m
                 + S_ASCurrents (node_S n1) ! m * P_r (node_P n1) ! m
                   * exp (- P_k (node_P n1) ! m * V_t_ref_total (node_V n1))]"
    by (auto simp: reset_ASCurrent_def Let_def split: if_splits)
  also have "\<dots> = map (\<lambda>a. if a < Suc m
                    then P_asc_amps (node_P node) ! a
                         + S_ASCurrents (node_S node) ! a * P_r (node_P node) ! a
                           * exp (- P_k (node_P node) ! a * V_t_ref_total (node_V node))
                    else S_ASCurrents (node_S node) ! a)
               [0..<length (S_ASCurrents (node_S node))]"
  proof -
    have e: "S_ASCurrents (node_S n1) ! m = S_ASCurrents (node_S node) ! m"
      unfolding ih using m by simp
    show ?thesis
      unfolding rest(1,2) e unfolding ih by (rule map_update_step [OF m])
  qed
  finally show ?case .
qed

lemma reset_loop_full:
  assumes "for_stmt [0..<length (S_ASCurrents (node_S node))] reset_ASCurrent node
             = (Inr (), node')"
  shows "S_ASCurrents (node_S node') =
           map (\<lambda>a. P_asc_amps (node_P node) ! a
                         + S_ASCurrents (node_S node) ! a * P_r (node_P node) ! a
                           * exp (- P_k (node_P node) ! a * V_t_ref_total (node_V node)))
               [0..<length (S_ASCurrents (node_S node))]"
  using reset_loop [OF assms order_refl] by (simp cong: map_cong)


lemma for_stmt_Inl:
  assumes "for_stmt idx body s = (Inl e, s')"
  obtains j t where "j \<in> set idx" and "body j t = (Inl e, s')"
  using assms
proof (induction idx arbitrary: s thesis)
  case Nil
  then show ?case by (simp add: return_stmt_def)
next
  case (Cons i idx)
  show ?case
  proof (cases "body i s")
    case (Pair r t)
    show ?thesis
    proof (cases r)
      case (Inl e')
      with Pair Cons.prems(2) have "body i s = (Inl e, s')" by (simp add: then_stmt_def)
      then show ?thesis using Cons.prems(1) [of i s] by simp
    next
      case (Inr u)
      with Pair Cons.prems(2) have "for_stmt idx body t = (Inl e, s')"
        by (simp add: then_stmt_def)
      then show ?thesis
        by (rule Cons.IH [rotated]) (use Cons.prems(1) in auto)
    qed
  qed
qed

lemma reset_loop_error:
  assumes "for_stmt idx reset_ASCurrent node = (Inl e, node')"
  shows "e = OutOfRange"
  using assms
  by (elim for_stmt_Inl) (auto simp: reset_ASCurrent_def Let_def split: if_splits)

lemma leave_refractory_unfold:
  "leave_refractory model_type node =
     (case (if model_type = 3 \<or> model_type = 4 \<or> model_type = 5
            then for_stmt [0..<length (S_ASCurrents (node_S node))] reset_ASCurrent node
            else (Inr (), node)) of
        (Inl e, n0) \<Rightarrow> (Inl e, n0)
      | (Inr _, n0) \<Rightarrow>
          (let U = (if model_type = 1 \<or> model_type = 3 then P_V_reset (node_P n0)
                    else P_voltage_reset_a (node_P n0) * S_U (node_S n0)
                         + P_voltage_reset_b (node_P n0));
               ls = (if model_type = 1 \<or> model_type = 3 then V_last_spike (node_V n0)
                     else V_last_spike (node_V n0) + P_a_spike (node_P n0));
               th = (if model_type = 1 \<or> model_type = 3 then S_threshold (node_S n0)
                     else ls + V_last_voltage (node_V n0) + P_th_inf (node_P n0));
               n1 = n0\<lparr>node_S := (node_S n0)\<lparr>S_U := U, S_threshold := th\<rparr>,
                       node_V := (node_V n0)\<lparr>V_last_spike := ls\<rparr>\<rparr>
           in if U > th
              then (Inl (AssertionFailed ''S_.U_ <= S_.threshold_''),
                    n1\<lparr>node_printed := node_printed n0 @ [(U, th)]\<rparr>)
              else (Inr (), n1)))"
  by (auto simp: leave_refractory_def then_stmt_def assign_def throw_if_def return_stmt_def
      Let_def split: prod.splits sum.splits)


lemma leave_refractory_result:
  assumes "leave_refractory model_type node = (res, node')" and "res \<noteq> Inl OutOfRange"
  shows "S_ASCurrents (node_S node') =
           (if model_type = 3 \<or> model_type = 4 \<or> model_type = 5
            then map (\<lambda>a. P_asc_amps (node_P node) ! a
                         + S_ASCurrents (node_S node) ! a * P_r (node_P node) ! a
                           * exp (- P_k (node_P node) ! a * V_t_ref_total (node_V node)))
                   [0..<length (S_ASCurrents (node_S node))]
            else S_ASCurrents (node_S node))"
    and "S_U (node_S node') =
           (if model_type = 1 \<or> model_type = 3 then P_V_reset (node_P node)
            else P_voltage_reset_a (node_P node) * S_U (node_S node)
                 + P_voltage_reset_b (node_P node))"
    and "S_threshold (node_S node') =
           (if model_type = 1 \<or> model_type = 3 then S_threshold (node_S node)
            else V_last_spike (node_V node) + P_a_spike (node_P node)
                 + V_last_voltage (node_V node) + P_th_inf (node_P node))"
    and "res = (if S_U (node_S node') > S_threshold (node_S node')
                then Inl (AssertionFailed ''S_.U_ <= S_.threshold_'') else Inr ())"
    and "node_printed node' =
           (if S_U (node_S node') > S_threshold (node_S node')
            then node_printed node @ [(S_U (node_S node'), S_threshold (node_S node'))]
            else node_printed node)"
    and "node_P node' = node_P node"
    and "V_t_ref_remaining (node_V node') = V_t_ref_remaining (node_V node)"
    and "V_t_ref_total (node_V node') = V_t_ref_total (node_V node)"
    and "node_sent node' = node_sent node" and "node_spiketimes node' = node_spiketimes node"
proof -
  let ?loop = "if model_type = 3 \<or> model_type = 4 \<or> model_type = 5
            then for_stmt [0..<length (S_ASCurrents (node_S node))] reset_ASCurrent node
            else (Inr (), node)"
  obtain r0 n0 where l: "?loop = (r0, n0)" by (cases ?loop)
  have r0: "r0 = Inr ()"
  proof (cases r0)
    case (Inl e)
    with l have "e = OutOfRange" by (auto split: if_splits dest: reset_loop_error)
    moreover from l Inl assms(1) have "res = Inl e" by (simp add: leave_refractory_unfold)
    ultimately show ?thesis using assms(2) by simp
  qed simp
  have rest: "node_P n0 = node_P node" "node_V n0 = node_V node"
    "S_U (node_S n0) = S_U (node_S node)" "S_threshold (node_S n0) = S_threshold (node_S node)"
    "node_spiketimes n0 = node_spiketimes node" "node_sent n0 = node_sent node"
    "node_printed n0 = node_printed node"
    using l by (auto split: if_splits dest: reset_loop_rest)
  have asc: "S_ASCurrents (node_S n0) =
           (if model_type = 3 \<or> model_type = 4 \<or> model_type = 5
            then map (\<lambda>a. P_asc_amps (node_P node) ! a
                         + S_ASCurrents (node_S node) ! a * P_r (node_P node) ! a
                           * exp (- P_k (node_P node) ! a * V_t_ref_total (node_V node)))
                   [0..<length (S_ASCurrents (node_S node))]
            else S_ASCurrents (node_S node))"
    using l r0 by (auto split: if_splits dest: reset_loop_full)
  from assms(1) l r0 have res: "(res, node') =
     (let U = (if model_type = 1 \<or> model_type = 3 then P_V_reset (node_P n0)
                    else P_voltage_reset_a (node_P n0) * S_U (node_S n0)
                         + P_voltage_reset_b (node_P n0));
               ls = (if model_type = 1 \<or> model_type = 3 then V_last_spike (node_V n0)
                     else V_last_spike (node_V n0) + P_a_spike (node_P n0));
               th = (if model_type = 1 \<or> model_type = 3 then S_threshold (node_S n0)
                     else ls + V_last_voltage (node_V n0) + P_th_inf (node_P n0));
               n1 = n0\<lparr>node_S := (node_S n0)\<lparr>S_U := U, S_threshold := th\<rparr>,
                       node_V := (node_V n0)\<lparr>V_last_spike := ls\<rparr>\<rparr>
           in if U > th
              then (Inl (AssertionFailed ''S_.U_ <= S_.threshold_''),
                    n1\<lparr>node_printed := node_printed n0 @ [(U, th)]\<rparr>)
              else (Inr (), n1))"
    by (simp add: leave_refractory_unfold)
  from res asc rest show "S_ASCurrents (node_S node') =
           (if model_type = 3 \<or> model_type = 4 \<or> model_type = 5
            then map (\<lambda>a. P_asc_amps (node_P node) ! a
                         + S_ASCurrents (node_S node) ! a * P_r (node_P node) ! a
                           * exp (- P_k (node_P node) ! a * V_t_ref_total (node_V node)))
                   [0..<length (S_ASCurrents (node_S node))]
            else S_ASCurrents (node_S node))"
    by (auto simp: Let_def split: if_splits)
  from res rest show u: "S_U (node_S node') =
           (if model_type = 1 \<or> model_type = 3 then P_V_reset (node_P node)
            else P_voltage_reset_a (node_P node) * S_U (node_S node)
                 + P_voltage_reset_b (node_P node))"
    by (auto simp: Let_def split: if_splits)
  from res rest show th: "S_threshold (node_S node') =
           (if model_type = 1 \<or> model_type = 3 then S_threshold (node_S node)
            else V_last_spike (node_V node) + P_a_spike (node_P node)
                 + V_last_voltage (node_V node) + P_th_inf (node_P node))"
    by (auto simp: Let_def split: if_splits)
  from res rest show "res = (if S_U (node_S node') > S_threshold (node_S node')
                then Inl (AssertionFailed ''S_.U_ <= S_.threshold_'') else Inr ())"
    by (auto simp: Let_def split: if_splits)
  from res rest show "node_printed node' =
           (if S_U (node_S node') > S_threshold (node_S node')
            then node_printed node @ [(S_U (node_S node'), S_threshold (node_S node'))]
            else node_printed node)"
    by (auto simp: Let_def split: if_splits)
  from res rest show "node_P node' = node_P node"
    and "V_t_ref_remaining (node_V node') = V_t_ref_remaining (node_V node)"
    and "V_t_ref_total (node_V node') = V_t_ref_total (node_V node)"
    and "node_sent node' = node_sent node" and "node_spiketimes node' = node_spiketimes node"
    by (auto simp: Let_def split: if_splits)
qed


lemma psc_receptor_error:
  "psc_receptor lag j node = (Inl e, node') \<Longrightarrow> e = OutOfRange"
  by (auto simp: psc_receptor_def Let_def get_value_def split: if_splits prod.splits sum.splits)

lemma consume_inputs_error:
  assumes "consume_inputs lag (node, loc) = (Inl e, st')"
  shows "e = OutOfRange"
proof -
  let ?l = "for_stmt [0..<n_receptors (node_P node)] (psc_receptor lag) node"
  obtain r1 n1 where l: "?l = (r1, n1)" by (cases ?l)
  show ?thesis
  proof (cases r1)
    case (Inl e1)
    with l have "e1 = OutOfRange" by (auto elim!: for_stmt_Inl dest: psc_receptor_error)
    with Inl l assms show ?thesis by (simp add: consume_inputs_def)
  next
    case (Inr u)
    with l assms show ?thesis
      by (auto simp: consume_inputs_def get_value_def Let_def split: if_splits)
  qed
qed

lemma decay_spike_component_result:
  "decay_spike_component dt model_type (node, loc) =
     (node\<lparr>node_V := (node_V node)\<lparr>V_last_spike :=
        (if model_type = 2 \<or> model_type = 4 \<or> model_type = 5
         then V_last_spike (node_V node) * exp (- P_b_spike (node_P node) * dt)
         else loc_spike_component loc)\<rparr>\<rparr>,
      (if model_type = 2 \<or> model_type = 4 \<or> model_type = 5
       then loc\<lparr>loc_spike_component :=
              V_last_spike (node_V node) * exp (- P_b_spike (node_P node) * dt)\<rparr>
       else loc))"
  by (simp add: decay_spike_component_def Let_def)

lemma update_step_refractory:
  assumes "0 < V_t_ref_remaining (node_V node)"
  shows "update_step dt model_type origin lag (node, loc) =
     (case refractory dt model_type (decay_spike_component dt model_type (node, loc)) of
        (Inl e, st') \<Rightarrow> (Inl e, st')
      | (Inr _, st') \<Rightarrow> consume_inputs lag st')"
  using assms by (simp add: update_step_unfold decay_spike_component_result)


lemma update_step_hold:
  assumes "0 < V_t_ref_remaining (node_V node)"
    and "0 < round_double (V_t_ref_remaining (node_V node) - dt)"
    and "update_step dt model_type origin lag (node, loc) = (Inr (), (node', loc'))"
  shows "V_t_ref_remaining (node_V node')
           = round_double (V_t_ref_remaining (node_V node) - dt)"
    and "V_t_ref_total (node_V node') = V_t_ref_total (node_V node)"
    and "node_P node' = node_P node"
    and "S_U (node_S node') = loc_v_old loc"
    and "S_ASCurrents (node_S node') = S_ASCurrents (node_S node)"
    and "S_threshold (node_S node') = S_threshold (node_S node)"
    and "node_sent node' = node_sent node" and "node_spiketimes node' = node_spiketimes node"
    and "node_printed node' = node_printed node"
    and "loc_v_old loc' = S_U (node_S node')"
proof -
  note pos = assms(1)
  obtain n0 l0 where d: "decay_spike_component dt model_type (node, loc) = (n0, l0)"
    by (cases "decay_spike_component dt model_type (node, loc)")
  let ?n1 = "n0\<lparr>node_V := (node_V n0)\<lparr>V_t_ref_remaining :=
                     round_double (V_t_ref_remaining (node_V n0) - dt)\<rparr>,
                node_S := (node_S n0)\<lparr>S_U := loc_v_old l0\<rparr>\<rparr>"
  from d have n0: "V_t_ref_remaining (node_V n0) = V_t_ref_remaining (node_V node)"
    "V_t_ref_total (node_V n0) = V_t_ref_total (node_V node)" "node_P n0 = node_P node"
    "node_S n0 = node_S node" "node_sent n0 = node_sent node"
    "node_spiketimes n0 = node_spiketimes node" "node_printed n0 = node_printed node"
    "loc_v_old l0 = loc_v_old loc"
    by (auto simp: decay_spike_component_result split: if_splits)
  with assms(2) have r: "refractory dt model_type (n0, l0) = (Inr (), (?n1, l0))"
    by (simp add: refractory_def Let_def)
  from assms(3) have c: "consume_inputs lag (?n1, l0) = (Inr (), (node', loc'))"
    unfolding update_step_refractory [OF pos] d r by simp
  from consume_inputs_membrane [OF c] have m: "membrane_part node' = membrane_part ?n1" .
  from m n0 show "V_t_ref_remaining (node_V node')
           = round_double (V_t_ref_remaining (node_V node) - dt)"
    and "V_t_ref_total (node_V node') = V_t_ref_total (node_V node)"
    and "node_P node' = node_P node"
    and u: "S_U (node_S node') = loc_v_old loc"
    and "S_ASCurrents (node_S node') = S_ASCurrents (node_S node)"
    and "S_threshold (node_S node') = S_threshold (node_S node)"
    and "node_sent node' = node_sent node" and "node_spiketimes node' = node_spiketimes node"
    and "node_printed node' = node_printed node"
    by (simp_all add: membrane_part_def)
  from consume_inputs_locals [OF c] show "loc_v_old loc' = S_U (node_S node')" by simp
qed

lemma update_step_leave:
  assumes "0 < V_t_ref_remaining (node_V node)"
    and "round_double (V_t_ref_remaining (node_V node) - dt) \<le> 0"
    and "update_step dt model_type origin lag (node, loc) = (res, (node', loc'))"
    and "res \<noteq> Inl OutOfRange"
  shows "S_ASCurrents (node_S node') =
           (if model_type = 3 \<or> model_type = 4 \<or> model_type = 5
            then map (\<lambda>a. P_asc_amps (node_P node) ! a
                         + S_ASCurrents (node_S node) ! a * P_r (node_P node) ! a
                           * exp (- P_k (node_P node) ! a * V_t_ref_total (node_V node)))
                   [0..<length (S_ASCurrents (node_S node))]
            else S_ASCurrents (node_S node))"
    and "S_U (node_S node') =
           (if model_type = 1 \<or> model_type = 3 then P_V_reset (node_P node)
            else P_voltage_reset_a (node_P node) * S_U (node_S node)
                 + P_voltage_reset_b (node_P node))"
    and "S_threshold (node_S node') =
           (if model_type = 1 \<or> model_type = 3 then S_threshold (node_S node)
            else (if model_type = 2 \<or> model_type = 4 \<or> model_type = 5
                  then V_last_spike (node_V node) * exp (- P_b_spike (node_P node) * dt)
                  else loc_spike_component loc)
                 + P_a_spike (node_P node)
                 + V_last_voltage (node_V node) + P_th_inf (node_P node))"
    and "res = (if S_U (node_S node') > S_threshold (node_S node')
                then Inl (AssertionFailed ''S_.U_ <= S_.threshold_'') else Inr ())"
    and "node_printed node' =
           (if S_U (node_S node') > S_threshold (node_S node')
            then node_printed node @ [(S_U (node_S node'), S_threshold (node_S node'))]
            else node_printed node)"
    and "node_P node' = node_P node"
    and "V_t_ref_remaining (node_V node')
           = round_double (V_t_ref_remaining (node_V node) - dt)"
    and "V_t_ref_total (node_V node') = V_t_ref_total (node_V node)"
    and "node_sent node' = node_sent node" and "node_spiketimes node' = node_spiketimes node"
proof -
  obtain n0 l0 where d: "decay_spike_component dt model_type (node, loc) = (n0, l0)"
    by (cases "decay_spike_component dt model_type (node, loc)")
  let ?n0 = "n0\<lparr>node_V := (node_V n0)\<lparr>V_t_ref_remaining :=
                     round_double (V_t_ref_remaining (node_V n0) - dt)\<rparr>\<rparr>"
  from d have n0: "V_t_ref_remaining (node_V n0) = V_t_ref_remaining (node_V node)"
    "V_t_ref_total (node_V n0) = V_t_ref_total (node_V node)" "node_P n0 = node_P node"
    "node_S n0 = node_S node" "node_sent n0 = node_sent node"
    "node_spiketimes n0 = node_spiketimes node" "node_printed n0 = node_printed node"
    "V_last_voltage (node_V n0) = V_last_voltage (node_V node)"
    "V_last_spike (node_V n0) =
       (if model_type = 2 \<or> model_type = 4 \<or> model_type = 5
        then V_last_spike (node_V node) * exp (- P_b_spike (node_P node) * dt)
        else loc_spike_component loc)"
    by (auto simp: decay_spike_component_result split: if_splits)
  obtain r1 n1 where lr: "leave_refractory model_type ?n0 = (r1, n1)"
    by (cases "leave_refractory model_type ?n0")
  with assms(2) n0 have r: "refractory dt model_type (n0, l0) = (r1, (n1, l0))"
    by (simp add: refractory_def Let_def)
  from assms(3) have c: "(case r1 of Inl e \<Rightarrow> (Inl e, (n1, l0))
                          | Inr _ \<Rightarrow> consume_inputs lag (n1, l0)) = (res, (node', loc'))"
    unfolding update_step_refractory [OF assms(1)] d r by simp
  have r1: "r1 \<noteq> Inl OutOfRange" using c assms(4) by (auto split: sum.splits)
  note lf = leave_refractory_result [OF lr r1]
  have m: "membrane_part node' = membrane_part n1"
    using c by (auto split: sum.splits dest: consume_inputs_membrane)
  have res: "res = r1"
  proof (cases r1)
    case (Inl e)
    with c show ?thesis by simp
  next
    case (Inr u)
    with c have ci: "consume_inputs lag (n1, l0) = (res, (node', loc'))" by simp
    with assms(4) consume_inputs_error have "res = Inr ()" by (cases res) auto
    with Inr show ?thesis by simp
  qed
  from m have same: "S_ASCurrents (node_S node') = S_ASCurrents (node_S n1)"
    "S_U (node_S node') = S_U (node_S n1)" "S_threshold (node_S node') = S_threshold (node_S n1)"
    "node_printed node' = node_printed n1" "node_P node' = node_P n1"
    "node_V node' = node_V n1" "node_sent node' = node_sent n1"
    "node_spiketimes node' = node_spiketimes n1"
    by (simp_all add: membrane_part_def)
  from lf(1) n0 same show "S_ASCurrents (node_S node') =
           (if model_type = 3 \<or> model_type = 4 \<or> model_type = 5
            then map (\<lambda>a. P_asc_amps (node_P node) ! a
                         + S_ASCurrents (node_S node) ! a * P_r (node_P node) ! a
                           * exp (- P_k (node_P node) ! a * V_t_ref_total (node_V node)))
                   [0..<length (S_ASCurrents (node_S node))]
            else S_ASCurrents (node_S node))"
    by simp
  from lf(2) n0 same show "S_U (node_S node') =
           (if model_type = 1 \<or> model_type = 3 then P_V_reset (node_P node)
            else P_voltage_reset_a (node_P node) * S_U (node_S node)
                 + P_voltage_reset_b (node_P node))"
    by simp
  from lf(3) n0 same show "S_threshold (node_S node') =
           (if model_type = 1 \<or> model_type = 3 then S_threshold (node_S node)
            else (if model_type = 2 \<or> model_type = 4 \<or> model_type = 5
                  then V_last_spike (node_V node) * exp (- P_b_spike (node_P node) * dt)
                  else loc_spike_component loc)
                 + P_a_spike (node_P node)
                 + V_last_voltage (node_V node) + P_th_inf (node_P node))"
    by simp
  from lf(4) res same show "res = (if S_U (node_S node') > S_threshold (node_S node')
                then Inl (AssertionFailed ''S_.U_ <= S_.threshold_'') else Inr ())"
    by simp
  from lf(5) n0 same show "node_printed node' =
           (if S_U (node_S node') > S_threshold (node_S node')
            then node_printed node @ [(S_U (node_S node'), S_threshold (node_S node'))]
            else node_printed node)"
    by simp
  from lf(6-10) n0 same show "node_P node' = node_P node"
    and "V_t_ref_remaining (node_V node')
           = round_double (V_t_ref_remaining (node_V node) - dt)"
    and "V_t_ref_total (node_V node') = V_t_ref_total (node_V node)"
    and "node_sent node' = node_sent node" and "node_spiketimes node' = node_spiketimes node"
    by simp_all
qed


lemma decay_ASCurrent_crossing:
  "keeps (\<lambda>n. (node_V n, node_sent n, node_spiketimes n, node_P n)) (decay_ASCurrent dt a)"
  by (auto simp: keeps_def decay_ASCurrent_def Let_def split: if_splits)

lemma add_synapse_crossing:
  "keeps (\<lambda>n. (node_V n, node_sent n, node_spiketimes n, node_P n)) (add_synapse i)"
  by (auto simp: keeps_def add_synapse_def Let_def split: if_splits)

lemma integrate_voltage_crossing:
  "keeps (\<lambda>n. (node_V n, node_sent n, node_spiketimes n, node_P n))
     (integrate_voltage dt model_type v_old)"
  unfolding integrate_voltage_def
  by (intro keeps_intros decay_ASCurrent_crossing add_synapse_crossing) simp_all

text \<open>
  A step outside the refractory period that ends normally has sent a spike exactly when the
  new potential exceeds the new threshold. The spike carries the offset \<open>spike_offset\<close> of
  the potential and the threshold before and after the step, the time stamp passed to
  \<^verbatim>\<open>set_spiketime\<close> is that of the end of the step, and the remaining refractory time is the
  total one.
\<close>

lemma update_step_crossing:
  assumes "\<not> 0 < V_t_ref_remaining (node_V node)"
    and "update_step dt model_type origin lag (node, loc) = (Inr (), (node', loc'))"
  shows "node_sent node' =
           (if S_U (node_S node') > S_threshold (node_S node')
            then node_sent node @
                   [(lag, spike_offset (loc_v_old loc) (loc_th_old loc)
                            (S_U (node_S node')) (S_threshold (node_S node')) dt)]
            else node_sent node)"
    and "node_spiketimes node' =
           (if S_U (node_S node') > S_threshold (node_S node')
            then node_spiketimes node @
                   [(origin + lag + 1, spike_offset (loc_v_old loc) (loc_th_old loc)
                            (S_U (node_S node')) (S_threshold (node_S node')) dt)]
            else node_spiketimes node)"
    and "V_t_ref_remaining (node_V node') =
           (if S_U (node_S node') > S_threshold (node_S node')
            then V_t_ref_total (node_V node') else V_t_ref_remaining (node_V node))"
    and "loc_v_old loc' = S_U (node_S node')"
proof -
  from assms(2) obtain n0 l0 n1 l1 where
    d: "decay_spike_component dt model_type (node, loc) = (n0, l0)"
    and b: "(if V_t_ref_remaining (node_V n0) > 0 then refractory dt model_type (n0, l0)
          else integrate dt model_type origin lag (n0, l0)) = (Inr (), (n1, l1))"
    and c: "consume_inputs lag (n1, l1) = (Inr (), (node', loc'))"
    by (rule update_step_Inr)
  from d have n0: "V_t_ref_remaining (node_V n0) = V_t_ref_remaining (node_V node)"
    "V_t_ref_total (node_V n0) = V_t_ref_total (node_V node)"
    "node_sent n0 = node_sent node" "node_spiketimes n0 = node_spiketimes node"
    "loc_v_old l0 = loc_v_old loc" "loc_th_old l0 = loc_th_old loc"
    by (auto simp: decay_spike_component_result split: if_splits)
  with b assms(1) have i: "integrate dt model_type origin lag (n0, l0) = (Inr (), (n1, l1))"
    by simp
  obtain r2 n2 where iv: "integrate_voltage dt model_type (loc_v_old l0) n0 = (r2, n2)"
    by (cases "integrate_voltage dt model_type (loc_v_old l0) n0")
  from keepsD [OF integrate_voltage_crossing iv]
  have n2: "node_V n2 = node_V n0" "node_sent n2 = node_sent n0"
    "node_spiketimes n2 = node_spiketimes n0" by simp_all
  from i iv have r2: "r2 = Inr ()" by (cases r2) (simp_all add: integrate_def)
  from i iv r2 n2 n0 have n1:
    "node_sent n1 =
           (if S_U (node_S n1) > S_threshold (node_S n1)
            then node_sent node @
                   [(lag, spike_offset (loc_v_old loc) (loc_th_old loc)
                            (S_U (node_S n1)) (S_threshold (node_S n1)) dt)]
            else node_sent node)"
    "node_spiketimes n1 =
           (if S_U (node_S n1) > S_threshold (node_S n1)
            then node_spiketimes node @
                   [(origin + lag + 1, spike_offset (loc_v_old loc) (loc_th_old loc)
                            (S_U (node_S n1)) (S_threshold (node_S n1)) dt)]
            else node_spiketimes node)"
    "V_t_ref_remaining (node_V n1) =
           (if S_U (node_S n1) > S_threshold (node_S n1)
            then V_t_ref_total (node_V n1) else V_t_ref_remaining (node_V node))"
    by (auto simp: integrate_def detect_spike_def Let_def split: if_splits)
  from consume_inputs_membrane [OF c] have m: "membrane_part node' = membrane_part n1" .
  then have same: "S_U (node_S node') = S_U (node_S n1)"
    "S_threshold (node_S node') = S_threshold (node_S n1)" "node_V node' = node_V n1"
    "node_sent node' = node_sent n1" "node_spiketimes node' = node_spiketimes n1"
    by (simp_all add: membrane_part_def)
  from n1(1) same show "node_sent node' =
           (if S_U (node_S node') > S_threshold (node_S node')
            then node_sent node @
                   [(lag, spike_offset (loc_v_old loc) (loc_th_old loc)
                            (S_U (node_S node')) (S_threshold (node_S node')) dt)]
            else node_sent node)" by simp
  from n1(2) same show "node_spiketimes node' =
           (if S_U (node_S node') > S_threshold (node_S node')
            then node_spiketimes node @
                   [(origin + lag + 1, spike_offset (loc_v_old loc) (loc_th_old loc)
                            (S_U (node_S node')) (S_threshold (node_S node')) dt)]
            else node_spiketimes node)" by simp
  from n1(3) same show "V_t_ref_remaining (node_V node') =
           (if S_U (node_S node') > S_threshold (node_S node')
            then V_t_ref_total (node_V node') else V_t_ref_remaining (node_V node))" by simp
  from consume_inputs_locals [OF c] show "loc_v_old loc' = S_U (node_S node')" by simp
qed


lemma for_stmt_upt_Suc:
  assumes "for_stmt [lo..<lo + Suc k] body s = (Inr (), s')"
  obtains s1 where "for_stmt [lo..<lo + k] body s = (Inr (), s1)"
    and "body (lo + k) s1 = (Inr (), s')"
proof -
  have "[lo..<lo + Suc k] = [lo..<lo + k] @ [lo + k]" by simp
  with assms obtain s1 where a: "for_stmt [lo..<lo + k] body s = (Inr (), s1)"
    and b: "for_stmt [lo + k] body s1 = (Inr (), s')"
    by (auto elim: for_stmt_append_Inr)
  from b have "body (lo + k) s1 = (Inr (), s')"
    by (auto simp: then_stmt_def return_stmt_def split: prod.splits sum.splits)
  with a that show ?thesis by blast
qed

text \<open>
  Once the count-down is at zero or below it stays there, for a step length that is not
  negative: a count-down that is positive after \<open>k\<close> steps was positive before.
\<close>

lemma countdown_nonpos:
  assumes "0 \<le> h" and "countdown h j T \<le> 0"
  shows "countdown h (j + i) T \<le> 0"
proof (induction i)
  case 0
  from assms(2) show ?case by simp
next
  case (Suc i)
  with assms(1) have "countdown h (j + i) T - h \<le> 0" by simp
  then show ?case by (simp add: round_double_nonpos)
qed

lemma countdown_pos:
  assumes "0 \<le> h" and "0 < countdown h k T" and "j \<le> k"
  shows "0 < countdown h j T"
proof (rule ccontr)
  assume "\<not> 0 < countdown h j T"
  then have "countdown h j T \<le> 0" by simp
  from countdown_nonpos [OF assms(1) this, of "k - j"] assms(2,3) show False by simp
qed

text \<open>
  The steps of a refractory period before the last one: the count-down is positive after
  each of them. They hold the potential and the after-spike currents and send no spike.
\<close>

lemma refractory_run:
  assumes "V_t_ref_remaining (node_V node) = T" and "loc_v_old loc = S_U (node_S node)"
    and "for_stmt [lo..<lo + k] (update_step h model_type origin) (node, loc)
           = (Inr (), (node', loc'))"
    and "\<forall>j\<le>k. 0 < countdown h j T"
  shows "V_t_ref_remaining (node_V node') = countdown h k T
     \<and> V_t_ref_total (node_V node') = V_t_ref_total (node_V node)
     \<and> node_P node' = node_P node
     \<and> S_U (node_S node') = S_U (node_S node)
     \<and> S_ASCurrents (node_S node') = S_ASCurrents (node_S node)
     \<and> S_threshold (node_S node') = S_threshold (node_S node)
     \<and> node_sent node' = node_sent node \<and> node_spiketimes node' = node_spiketimes node
     \<and> node_printed node' = node_printed node
     \<and> loc_v_old loc' = S_U (node_S node')"
  using assms(3,4)
proof (induction k arbitrary: node' loc')
  case 0
  then show ?case using assms(1,2) by (simp add: return_stmt_def)
next
  case (Suc k)
  from Suc.prems(1) obtain st1 where
    r1: "for_stmt [lo..<lo + k] (update_step h model_type origin) (node, loc) = (Inr (), st1)"
    and r2: "update_step h model_type origin (lo + k) st1 = (Inr (), (node', loc'))"
    by (rule for_stmt_upt_Suc)
  obtain n1 l1 where st1: "st1 = (n1, l1)" by (cases st1)
  from Suc.prems(2) have k: "\<forall>j\<le>k. 0 < countdown h j T" by simp
  note ih = Suc.IH [OF r1 [unfolded st1] k]
  from Suc.prems(2) have "0 < countdown h k T" and "0 < countdown h (Suc k) T"
    by (simp_all del: countdown.simps)
  with ih have p: "0 < V_t_ref_remaining (node_V n1)"
    and q: "0 < round_double (V_t_ref_remaining (node_V n1) - h)" by simp_all
  note s = update_step_hold [OF p q r2 [unfolded st1]]
  from s ih show ?case by simp
qed

text \<open>
  A whole refractory period of \<open>k + 1\<close> steps: the count-down is positive after \<open>k\<close>
  steps and zero or less after the next one, which resets the after-spike currents.
\<close>

lemma refractory_period:
  assumes "V_t_ref_remaining (node_V node) = T" and "loc_v_old loc = S_U (node_S node)"
    and "for_stmt [lo..<lo + Suc k] (update_step h model_type origin) (node, loc)
           = (Inr (), (node', loc'))"
    and "\<forall>j\<le>k. 0 < countdown h j T" and "countdown h (Suc k) T \<le> 0"
  shows "S_ASCurrents (node_S node') =
           (if model_type = 3 \<or> model_type = 4 \<or> model_type = 5
            then map (\<lambda>a. P_asc_amps (node_P node) ! a
                         + S_ASCurrents (node_S node) ! a * P_r (node_P node) ! a
                           * exp (- P_k (node_P node) ! a * V_t_ref_total (node_V node)))
                   [0..<length (S_ASCurrents (node_S node))]
            else S_ASCurrents (node_S node))"
    and "V_t_ref_remaining (node_V node') = countdown h (Suc k) T"
    and "node_sent node' = node_sent node" and "node_spiketimes node' = node_spiketimes node"
proof -
  from assms(3) obtain st1 where
    r1: "for_stmt [lo..<lo + k] (update_step h model_type origin) (node, loc) = (Inr (), st1)"
    and r2: "update_step h model_type origin (lo + k) st1 = (Inr (), (node', loc'))"
    by (rule for_stmt_upt_Suc)
  obtain n1 l1 where st1: "st1 = (n1, l1)" by (cases st1)
  note r = refractory_run [OF assms(1,2) r1 [unfolded st1] assms(4)]
  from assms(4) have "0 < countdown h k T" by simp
  with r have a: "0 < V_t_ref_remaining (node_V n1)" by simp
  from assms(5) r have b: "round_double (V_t_ref_remaining (node_V n1) - h) \<le> 0" by simp
  have ok: "(Inr () :: error + unit) \<noteq> Inl OutOfRange" by simp
  note s = update_step_leave [OF a b r2 [unfolded st1] ok]
  from s(1) r show "S_ASCurrents (node_S node') =
           (if model_type = 3 \<or> model_type = 4 \<or> model_type = 5
            then map (\<lambda>a. P_asc_amps (node_P node) ! a
                         + S_ASCurrents (node_S node) ! a * P_r (node_P node) ! a
                           * exp (- P_k (node_P node) ! a * V_t_ref_total (node_V node)))
                   [0..<length (S_ASCurrents (node_S node))]
            else S_ASCurrents (node_S node))"
    by simp
  from s(7,9,10) r show "V_t_ref_remaining (node_V node') = countdown h (Suc k) T"
    and "node_sent node' = node_sent node" and "node_spiketimes node' = node_spiketimes node"
    by simp_all
qed




lemma calibrate_t_ref_total:
  "V_t_ref_total (node_V (calibrate h horizon p31 p32 node)) = P_t_ref (node_P node)"
proof -
  have "V_t_ref_total (node_V (fold (calibrate_receptor h horizon p31 p32 Tau) idx n))
        = V_t_ref_total (node_V n)" for Tau idx n
    by (induction idx arbitrary: n) (simp_all add: calibrate_receptor_def Let_def)
  then show ?thesis by (simp add: calibrate_def Let_def)
qed

text \<open>
  Claim C7. A threshold crossing has set the remaining refractory time to the total
  refractory time \<open>T\<close>, which \<open>calibrate\<close> takes from the parameter \<^verbatim>\<open>t_ref\<close>, and the
  steps that follow, of length \<open>h > 0\<close>, run without an error up to the step on which the
  remaining time reaches zero or below: the count-down is positive after \<open>k\<close> steps and
  zero or less after the step \<open>k + 1\<close>. For the models 3, 4 and 5 the after-spike current
  \<open>j\<close> is then \<open>asc_amps[j] + previous * r[j] * exp (- k[j] * T)\<close>, where \<open>previous\<close> is
  its value at the crossing; for every other model the after-spike currents are as at the
  crossing.
\<close>

theorem after_spike_currents_reset:
  assumes "0 < h"
    and "V_t_ref_remaining (node_V node) = T" and "V_t_ref_total (node_V node) = T"
    and "loc_v_old loc = S_U (node_S node)"
    and "for_stmt [lo..<lo + Suc k] (update_step h model_type origin) (node, loc)
           = (Inr (), (node', loc'))"
    and "0 < countdown h k T" and "countdown h (Suc k) T \<le> 0"
  shows "S_ASCurrents (node_S node') =
           (if model_type = 3 \<or> model_type = 4 \<or> model_type = 5
            then map (\<lambda>j. P_asc_amps (node_P node) ! j
                         + S_ASCurrents (node_S node) ! j * P_r (node_P node) ! j
                           * exp (- P_k (node_P node) ! j * T))
                   [0..<length (S_ASCurrents (node_S node))]
            else S_ASCurrents (node_S node))
     \<and> V_t_ref_remaining (node_V node') \<le> 0
     \<and> V_t_ref_total (node_V (calibrate h horizon propagator_a propagator_b nodeA))
         = P_t_ref (node_P nodeA)"
proof -
  from assms(1,6) have p: "\<forall>j\<le>k. 0 < countdown h j T"
    by (auto intro: countdown_pos)
  note s = refractory_period [OF assms(2,4,5) p assms(7)]
  from s(1) assms(3) have "S_ASCurrents (node_S node') =
           (if model_type = 3 \<or> model_type = 4 \<or> model_type = 5
            then map (\<lambda>j. P_asc_amps (node_P node) ! j
                         + S_ASCurrents (node_S node) ! j * P_r (node_P node) ! j
                           * exp (- P_k (node_P node) ! j * T))
                   [0..<length (S_ASCurrents (node_S node))]
            else S_ASCurrents (node_S node))"
    by simp
  moreover from s(2) assms(7) have "V_t_ref_remaining (node_V node') \<le> 0" by simp
  ultimately show ?thesis by (simp add: calibrate_t_ref_total)
qed

lemma for_stmt_stops:
  assumes "for_stmt [lo..<lag] body s0 = (Inr (), s)" and "body lag s = (Inl e, s')"
    and "lo \<le> lag" and "lag < hi"
  shows "for_stmt [lo..<hi] body s0 = (Inl e, s')"
proof -
  from assms(3,4) have "[lo..<hi] = [lo..<lag] @ lag # [Suc lag..<hi]"
    using upt_add_eq_append [of lo lag "hi - lag"] by (simp add: upt_conv_Cons)
  with assms(1,2) show ?thesis
    by (simp add: for_stmt_append then_stmt_def)
qed

text \<open>
  Claim C8. On the step that ends the refractory period, with every vector access in
  range, the potential after the reset is the reset value itself, fixed or affine, never a
  clamped one. When it does not exceed the threshold after the reset, the step ends
  normally and prints nothing. When it exceeds the threshold, the diagnostic is printed
  with the two values and the assertion \<^verbatim>\<open>S_.U_ <= S_.threshold_\<close> fails: the step ends
  with that failure, and so does every run of steps that reaches this step, in the state in
  which the assertion failed, without running a later step.
\<close>

theorem reset_above_threshold_halts:
  assumes "0 < V_t_ref_remaining (node_V node)" and "V_t_ref_remaining (node_V node) \<le> dt"
    and "update_step dt model_type origin lag (node, loc) = (res, (node', loc'))"
    and "res \<noteq> Inl OutOfRange"
  shows "S_U (node_S node') =
           (if model_type = 1 \<or> model_type = 3 then P_V_reset (node_P node)
            else P_voltage_reset_a (node_P node) * S_U (node_S node)
                 + P_voltage_reset_b (node_P node))
     \<and> (S_U (node_S node') \<le> S_threshold (node_S node') \<longrightarrow>
          res = Inr () \<and> node_printed node' = node_printed node)
     \<and> (S_U (node_S node') > S_threshold (node_S node') \<longrightarrow>
          res = Inl (AssertionFailed ''S_.U_ <= S_.threshold_'')
          \<and> node_printed node'
              = node_printed node @ [(S_U (node_S node'), S_threshold (node_S node'))]
          \<and> (\<forall>lo hi st0.
                lo \<le> lag \<and> lag < hi
                \<and> for_stmt [lo..<lag] (update_step dt model_type origin) st0
                    = (Inr (), (node, loc))
                \<longrightarrow> for_stmt [lo..<hi] (update_step dt model_type origin) st0
                    = (Inl (AssertionFailed ''S_.U_ <= S_.threshold_''), (node', loc'))))"
proof -
  from assms(2) have "round_double (V_t_ref_remaining (node_V node) - dt) \<le> 0"
    by (intro round_double_nonpos) simp
  note s = update_step_leave [OF assms(1) this assms(3,4)]
  have "for_stmt [lo..<hi] (update_step dt model_type origin) st0
          = (Inl (AssertionFailed ''S_.U_ <= S_.threshold_''), (node', loc'))"
    if "S_U (node_S node') > S_threshold (node_S node')" and "lo \<le> lag" and "lag < hi"
      and "for_stmt [lo..<lag] (update_step dt model_type origin) st0 = (Inr (), (node, loc))"
    for lo hi st0
  proof -
    from s(4) that(1) have "res = Inl (AssertionFailed ''S_.U_ <= S_.threshold_'')" by simp
    with assms(3) have "update_step dt model_type origin lag (node, loc)
      = (Inl (AssertionFailed ''S_.U_ <= S_.threshold_''), (node', loc'))" by simp
    from for_stmt_stops [OF that(4) this that(2,3)] show ?thesis .
  qed
  with s(2,4,5) show ?thesis by auto
qed

subsection \<open>The refractory period on the example node\<close>

lemma example_node_value:
  "example_node = glif_psc_default\<lparr>
      node_S := (State_init Parameters_default)\<lparr>S_y1 := [0], S_y2 := [0]\<rparr>,
      node_V := \<lparr> V_t_ref_remaining = 0, V_t_ref_total = 375 / 100, V_last_spike = 0,
                  V_last_voltage = 0, V_P11 = [exp (- 1 / 2)], V_P21 = [exp (- 1 / 2)],
                  V_P22 = [exp (- 1 / 2)], V_P31 = [0],
                  V_P32 = [0],
                  V_P30 = 1 / (5872 / 100) * (1 - exp (- 1 / ((5872 / 100) / (943 / 100))))
                          * ((5872 / 100) / (943 / 100)),
                  V_P33 = exp (- 1 / ((5872 / 100) / (943 / 100))),
                  V_PSCInitialValues = [exp 1 / 2] \<rparr>,
      node_B := \<lparr> B_spikes = [[0, 0, 0, 0, 0]], B_currents = [0, 0, 0, 0, 0] \<rparr>\<rparr>"
  by (simp add: example_node_def calibrate_def Let_def init_buffers_def glif_psc_default_def
      Parameters_default_def State_init_def n_receptors_def resize_vector_def
      calibrate_receptor_def RingBuffer_resize_def numeral_eq_Suc)

lemmas step_defs =
  update_step_def then_stmt_def assign_def return_stmt_def throw_if_def
  decay_spike_component_def refractory_def leave_refractory_def reset_ASCurrent_def
  integrate_def integrate_voltage_def consume_inputs_def
  n_receptors_def add_synapse_def psc_receptor_def get_value_def detect_spike_def
  glif_psc_default_def Parameters_default_def State_init_def Let_def

lemma upt_0_2: "[0..<2] = [0, 1]"
  by (simp add: upt_rec numeral_eq_Suc)






lemma round_double_1: "round_double 1 = 1"
  by (subst round_double_binade [where e = 0]) (simp_all add: round_even_def Let_def)






lemma leave_example:
  "fst (for_stmt [0..<2] (update_step 1 3 0)
     (example_node\<lparr>node_V := (node_V example_node)\<lparr>V_t_ref_remaining := 2,
                                                        V_t_ref_total := 2\<rparr>,
                   node_S := (node_S example_node)\<lparr>S_ASCurrents := [3 / 2, - 2]\<rparr>\<rparr>,
      \<lparr>loc_v_old = 0, loc_spike_component = 0, loc_voltage_component = 0,
         loc_th_old = 2717 / 100\<rparr>)) = Inr ()"
  unfolding example_node_value
  by (simp add: step_defs upt_0_1 upt_0_2 round_double_1 round_double_nonpos)

text \<open>
  The theorem of the claim C7 on a refractory period of two steps of 1 ms, for the model 3
  and the after-spike currents 1.5 and - 2 at the crossing.
\<close>

theorem after_spike_currents_reset_witness:
  "(0::real) < 1 \<and> 0 < countdown 1 (Suc 0) 2 \<and> countdown 1 (Suc (Suc 0)) 2 \<le> 0
   \<and> fst (for_stmt [0..<0 + Suc (Suc 0)] (update_step 1 3 0)
        (example_node\<lparr>node_V := (node_V example_node)\<lparr>V_t_ref_remaining := 2,
                                                           V_t_ref_total := 2\<rparr>,
                      node_S := (node_S example_node)\<lparr>S_ASCurrents := [3 / 2, - 2]\<rparr>\<rparr>,
         \<lparr>loc_v_old = 0, loc_spike_component = 0, loc_voltage_component = 0,
            loc_th_old = 2717 / 100\<rparr>)) = Inr ()
   \<and> S_ASCurrents (node_S (fst (snd
        (for_stmt [0..<0 + Suc (Suc 0)] (update_step 1 3 0)
          (example_node\<lparr>node_V := (node_V example_node)\<lparr>V_t_ref_remaining := 2,
                                                             V_t_ref_total := 2\<rparr>,
                        node_S := (node_S example_node)\<lparr>S_ASCurrents := [3 / 2, - 2]\<rparr>\<rparr>,
           \<lparr>loc_v_old = 0, loc_spike_component = 0, loc_voltage_component = 0,
              loc_th_old = 2717 / 100\<rparr>)))))
      = [- 918 / 100 + 3 / 2 * 1 * exp (- (3 / 1000) * 2),
         - 19894 / 100 + - 2 * 1 * exp (- (1 / 10) * 2)]"
proof -
  let ?N = "example_node\<lparr>node_V := (node_V example_node)\<lparr>V_t_ref_remaining := 2,
                                                           V_t_ref_total := 2\<rparr>,
                      node_S := (node_S example_node)\<lparr>S_ASCurrents := [3 / 2, - 2]\<rparr>\<rparr>"
  let ?L = "\<lparr>loc_v_old = 0, loc_spike_component = 0, loc_voltage_component = 0,
            loc_th_old = 2717 / 100\<rparr>"
  let ?run = "for_stmt [0..<0 + Suc (Suc 0)] (update_step 1 3 0) (?N, ?L)"
  have h: "(0::real) < 1" by simp
  have p: "0 < countdown 1 (Suc 0) 2" by (simp add: round_double_1)
  have q: "countdown 1 (Suc (Suc 0)) 2 \<le> 0" by (simp add: round_double_1 round_double_nonpos)
  have t: "V_t_ref_remaining (node_V ?N) = 2" "V_t_ref_total (node_V ?N) = 2"
    by simp_all
  have v: "loc_v_old ?L = S_U (node_S ?N)"
    by (simp add: example_node_value glif_psc_default_def State_init_def)
  have two: "Suc (Suc 0) = 2" by simp
  have ok: "fst ?run = Inr ()" using leave_example by (simp add: two)
  then have run: "?run = (Inr (), (fst (snd ?run), snd (snd ?run)))"
    by (simp add: prod_eq_iff)
  have asc: "P_asc_amps (node_P example_node) = [- 918 / 100, - 19894 / 100]"
    "P_r (node_P example_node) = [1, 1]" "P_k (node_P example_node) = [3 / 1000, 1 / 10]"
    by (simp_all add: example_node_value glif_psc_default_def State_init_def
        Parameters_default_def)
  from after_spike_currents_reset [where horizon = 5
      and propagator_a = "\<lambda>_ _ _ _. 0" and propagator_b = "\<lambda>_ _ _ _. 0"
      and nodeA = glif_psc_default, OF h t v run p q]
  have "S_ASCurrents (node_S (fst (snd ?run)))
      = [- 918 / 100 + 3 / 2 * 1 * exp (- (3 / 1000) * 2),
         - 19894 / 100 + - 2 * 1 * exp (- (1 / 10) * 2)]"
    by (simp add: asc upt_0_2)
  with h p q ok show ?thesis by blast
qed

lemma abort_example:
  "fst (update_step 1 2 0 0
     (example_node\<lparr>node_V := (node_V example_node)\<lparr>V_t_ref_remaining := 1 / 2\<rparr>,
                   node_S := (node_S example_node)\<lparr>S_U := 50\<rparr>\<rparr>,
      \<lparr>loc_v_old = 50, loc_spike_component = 0, loc_voltage_component = 0,
         loc_th_old = 2717 / 100\<rparr>))
   = Inl (AssertionFailed ''S_.U_ <= S_.threshold_'')"
  "S_threshold (node_S (fst (snd (update_step 1 2 0 0
     (example_node\<lparr>node_V := (node_V example_node)\<lparr>V_t_ref_remaining := 1 / 2\<rparr>,
                   node_S := (node_S example_node)\<lparr>S_U := 50\<rparr>\<rparr>,
      \<lparr>loc_v_old = 50, loc_spike_component = 0, loc_voltage_component = 0,
         loc_th_old = 2717 / 100\<rparr>))))) = 2754 / 100"
  unfolding example_node_value
  by (simp_all add: step_defs upt_0_1 upt_0_2 round_double_nonpos)

text \<open>
  The theorem of the claim C8 on a reset above the threshold: the model 2 resets the
  potential 50 to 28.51, above the threshold 27.54.
\<close>

theorem reset_above_threshold_halts_witness:
  "(0::real) < 1 / 2 \<and> (1 / 2 :: real) \<le> 1
   \<and> fst (update_step 1 2 0 0
        (example_node\<lparr>node_V := (node_V example_node)\<lparr>V_t_ref_remaining := 1 / 2\<rparr>,
                      node_S := (node_S example_node)\<lparr>S_U := 50\<rparr>\<rparr>,
         \<lparr>loc_v_old = 50, loc_spike_component = 0, loc_voltage_component = 0,
            loc_th_old = 2717 / 100\<rparr>))
      = Inl (AssertionFailed ''S_.U_ <= S_.threshold_'')
   \<and> S_U (node_S (fst (snd (update_step 1 2 0 0
        (example_node\<lparr>node_V := (node_V example_node)\<lparr>V_t_ref_remaining := 1 / 2\<rparr>,
                      node_S := (node_S example_node)\<lparr>S_U := 50\<rparr>\<rparr>,
         \<lparr>loc_v_old = 50, loc_spike_component = 0, loc_voltage_component = 0,
            loc_th_old = 2717 / 100\<rparr>))))) = 2851 / 100
   \<and> node_printed (fst (snd (update_step 1 2 0 0
        (example_node\<lparr>node_V := (node_V example_node)\<lparr>V_t_ref_remaining := 1 / 2\<rparr>,
                      node_S := (node_S example_node)\<lparr>S_U := 50\<rparr>\<rparr>,
         \<lparr>loc_v_old = 50, loc_spike_component = 0, loc_voltage_component = 0,
            loc_th_old = 2717 / 100\<rparr>)))) = [(2851 / 100, 2754 / 100)]"
proof -
  let ?N = "example_node\<lparr>node_V := (node_V example_node)\<lparr>V_t_ref_remaining := 1 / 2\<rparr>,
                      node_S := (node_S example_node)\<lparr>S_U := 50\<rparr>\<rparr>"
  let ?L = "\<lparr>loc_v_old = 50, loc_spike_component = 0, loc_voltage_component = 0,
            loc_th_old = 2717 / 100\<rparr>"
  let ?s = "update_step 1 2 0 0 (?N, ?L)"
  have a: "0 < V_t_ref_remaining (node_V ?N)" and b: "V_t_ref_remaining (node_V ?N) \<le> 1"
    by simp_all
  have c: "?s = (fst ?s, (fst (snd ?s), snd (snd ?s)))" by simp
  have d: "fst ?s \<noteq> Inl OutOfRange" unfolding abort_example(1) by simp
  have p: "P_voltage_reset_a (node_P example_node) = 20 / 100"
    "P_voltage_reset_b (node_P example_node) = 1851 / 100" "node_printed example_node = []"
    by (simp_all add: example_node_value glif_psc_default_def Parameters_default_def)
  note th = reset_above_threshold_halts [OF a b c d]
  from th have u: "S_U (node_S (fst (snd ?s))) = 2851 / 100"
    by (simp add: p)
  with abort_example(2)
  have gt: "S_U (node_S (fst (snd ?s))) > S_threshold (node_S (fst (snd ?s)))" by simp
  with th have "node_printed (fst (snd ?s))
         = node_printed ?N @ [(S_U (node_S (fst (snd ?s))), S_threshold (node_S (fst (snd ?s))))]"
    by blast
  with u abort_example(2) have "node_printed (fst (snd ?s)) = [(2851 / 100, 2754 / 100)]"
    by (simp add: p)
  with u abort_example(1) show ?thesis by simp
qed



subsection \<open>A count-down that rounds\<close>












end
